theory Spec2Isabelle
  imports Main "HOL-Library.AList" "HOL-Library.Sublist"
begin

section \<open>Data model (the interfaces of \<^verbatim>\<open>storage.ts\<close>)\<close>

text \<open>
  Field names carry a prefix because several interfaces share \<^verbatim>\<open>id\<close>, \<^verbatim>\<open>name\<close>,
  \<^verbatim>\<open>url\<close>, \<^verbatim>\<open>title\<close>, \<^verbatim>\<open>createdAt\<close> and \<^verbatim>\<open>updatedAt\<close>. An optional field
  (\<^verbatim>\<open>description?\<close>) is an \<open>option\<close>. Time stamps are natural numbers (milliseconds);
  the highlight cap and the read limit are integers, since zero and negative numbers
  change what \<^verbatim>\<open>||\<close> and \<^verbatim>\<open>slice\<close> do.
\<close>

type_synonym WorkspaceId = string

record TabRef =
  tab_id :: string
  tab_url :: string
  tab_title :: string
  tab_favIconUrl :: "string option"
  tab_pinned :: bool
  tab_index :: int

record Highlight =
  hl_id :: string
  hl_text :: string
  hl_url :: string
  hl_title :: string
  hl_createdAt :: nat
  hl_tags :: "string list option"

datatype theme = Light | Dark | Auto

text \<open>\<^verbatim>\<open>Settings\<close>: three required booleans, four optional fields.\<close>

record Settings =
  openaiApiKey :: "string option"
  notionApiKey :: "string option"
  notionIntegrationEnabled :: bool
  focusModeEnabled :: bool
  autoSaveTabSets :: bool
  theme :: "theme option"
  maxHighlights :: "int option"

text \<open>\<^verbatim>\<open>Partial<Settings>\<close>: every key may be absent (\<open>None\<close>).\<close>

record PartialSettings =
  p_openaiApiKey :: "string option"
  p_notionApiKey :: "string option"
  p_notionIntegrationEnabled :: "bool option"
  p_focusModeEnabled :: "bool option"
  p_autoSaveTabSets :: "bool option"
  p_theme :: "theme option"
  p_maxHighlights :: "int option"

record Workspace =
  ws_id :: WorkspaceId
  ws_name :: string
  ws_description :: "string option"
  ws_createdAt :: nat
  ws_updatedAt :: nat
  ws_isActive :: bool
  ws_color :: "string option"
  ws_icon :: "string option"

record TabSet =
  ts_id :: string
  ts_workspaceId :: WorkspaceId
  ts_name :: string
  ts_tabs :: "TabRef list"
  ts_createdAt :: nat
  ts_updatedAt :: nat

text \<open>
  A value held by the key-value backend. The manager keeps a workspace array, a tab-set
  array, a highlight object (workspace id to highlight array, as the association list of
  its own properties) and a settings object under its fixed keys; the active pointer
  and the quick notes are strings. \<open>Null\<close> is JavaScript's \<^verbatim>\<open>null\<close>.
\<close>

datatype stored =
    Null
  | Str string
  | WorkspaceArr "Workspace list"
  | TabSetArr "TabSet list"
  | HighlightObj "(WorkspaceId \<times> Highlight list) list"
  | SettingsObj PartialSettings

definition SETTINGS :: string where "SETTINGS = ''mv_settings''"
definition ACTIVE_WORKSPACE :: string where "ACTIVE_WORKSPACE = ''mv_active_workspace''"
definition WORKSPACE_METADATA :: string where "WORKSPACE_METADATA = ''mv_workspace_metadata''"
definition WORKSPACES :: string where "WORKSPACES = ''mv_workspaces''"
definition TAB_SETS :: string where "TAB_SETS = ''mv_tab_sets''"
definition HIGHLIGHTS :: string where "HIGHLIGHTS = ''mv_highlights''"

section \<open>The backend: \<^verbatim>\<open>chrome.storage.sync\<close> and \<^verbatim>\<open>chrome.storage.local\<close>\<close>

text \<open>
  The world is the two partitions, the clock that \<^verbatim>\<open>Date.now()\<close> reads, and a schedule
  of backend outcomes: the n-th backend call from now rejects with an \<^verbatim>\<open>Error\<close> of
  message \<open>m\<close> when the n-th entry is \<open>Some m\<close>, and resolves when it is \<open>None\<close> or the
  schedule is exhausted; the empty schedule is the backend that does not fail. A rejected
  call changes no partition. The field \<open>rejected\<close> is a record of the calls rejected so
  far (newest first); no operation reads it.
\<close>

datatype call_kind = MGet | MSet | MRemove | MClear

record world =
  sync :: "string \<rightharpoonup> stored"
  local :: "string \<rightharpoonup> stored"
  clock :: nat
  faults :: "string option list"
  rejected :: "(call_kind \<times> string) list"

text \<open>
  A thrown value: an \<^verbatim>\<open>Error\<close> (what the backend rejects with and what the manager
  throws) or a \<^verbatim>\<open>TypeError\<close> (what calling a method that is not there throws), with its
  message.
\<close>

datatype thrown = Error string | TypeError string

text \<open>
  An asynchronous operation: it either resolves with a value (\<open>Inr\<close>) or rejects with a
  thrown value (\<open>Inl\<close>); either way it returns the world it leaves behind, so that the
  writes done before a rejection stay done.
\<close>

type_synonym 'a io = "world \<Rightarrow> (thrown + 'a) \<times> world"

definition resolve :: "'a \<Rightarrow> 'a io" where
  "resolve x = (\<lambda>w. (Inr x, w))"

definition throw :: "thrown \<Rightarrow> 'a io" where
  "throw e = (\<lambda>w. (Inl e, w))"

text \<open>\<^verbatim>\<open>const x = await m; f(x)\<close>\<close>

definition await :: "'a io \<Rightarrow> ('a \<Rightarrow> 'b io) \<Rightarrow> 'b io" where
  "await m f = (\<lambda>w. case m w of (Inl e, w') \<Rightarrow> (Inl e, w') | (Inr x, w') \<Rightarrow> f x w')"

text \<open>\<^verbatim>\<open>try { m } catch (error) { h(error) }\<close>\<close>

definition try_catch :: "'a io \<Rightarrow> (thrown \<Rightarrow> 'a io) \<Rightarrow> 'a io" where
  "try_catch m h = (\<lambda>w. case m w of (Inl e, w') \<Rightarrow> h e w' | (Inr x, w') \<Rightarrow> (Inr x, w'))"

text \<open>
  \<^verbatim>\<open>await Promise.all([a, b])\<close> for two calls: both calls are issued, so both take
  effect; the result rejects when one of them does (with the first one's error when both
  do).
\<close>

definition promise_all2 :: "'a io \<Rightarrow> 'b io \<Rightarrow> ('a \<times> 'b) io" where
  "promise_all2 a b = (\<lambda>w.
     case a w of (ra, w1) \<Rightarrow>
     case b w1 of (rb, w2) \<Rightarrow>
       (case ra of Inl e \<Rightarrow> (Inl e, w2)
        | Inr x \<Rightarrow> (case rb of Inl e \<Rightarrow> (Inl e, w2) | Inr y \<Rightarrow> (Inr (x, y), w2))))"

text \<open>The template \<^verbatim>\<open>${error}\<close>: the name of the thrown value, then its message.\<close>

fun error_text :: "thrown \<Rightarrow> string" where
  "error_text (Error msg) = ''Error: '' @ msg"
| "error_text (TypeError msg) = ''TypeError: '' @ msg"

text \<open>One backend call: it consumes the next entry of the schedule.\<close>

definition backend_call :: "call_kind \<Rightarrow> (world \<Rightarrow> 'a \<times> world) \<Rightarrow> 'a io" where
  "backend_call meth act = (\<lambda>w.
     case faults w of
       [] \<Rightarrow> (case act w of (x, w') \<Rightarrow> (Inr x, w'))
     | None # rest \<Rightarrow> (case act (w\<lparr>faults := rest\<rparr>) of (x, w') \<Rightarrow> (Inr x, w'))
     | Some msg # rest \<Rightarrow>
         (Inl (Error msg), w\<lparr>faults := rest, rejected := (meth, msg) # rejected w\<rparr>))"

definition sync_get :: "string list \<Rightarrow> (string \<rightharpoonup> stored) io" where
  "sync_get keys = backend_call MGet (\<lambda>w. (sync w |` set keys, w))"

definition sync_get_all :: "(string \<rightharpoonup> stored) io" where
  "sync_get_all = backend_call MGet (\<lambda>w. (sync w, w))"

definition sync_set :: "(string \<rightharpoonup> stored) \<Rightarrow> unit io" where
  "sync_set items = backend_call MSet (\<lambda>w. ((), w\<lparr>sync := sync w ++ items\<rparr>))"

definition sync_remove :: "string list \<Rightarrow> unit io" where
  "sync_remove keys = backend_call MRemove (\<lambda>w. ((), w\<lparr>sync := sync w |` (- set keys)\<rparr>))"

definition sync_clear :: "unit io" where
  "sync_clear = backend_call MClear (\<lambda>w. ((), w\<lparr>sync := Map.empty\<rparr>))"

definition local_get :: "string list \<Rightarrow> (string \<rightharpoonup> stored) io" where
  "local_get keys = backend_call MGet (\<lambda>w. (local w |` set keys, w))"

definition local_get_all :: "(string \<rightharpoonup> stored) io" where
  "local_get_all = backend_call MGet (\<lambda>w. (local w, w))"

definition local_set :: "(string \<rightharpoonup> stored) \<Rightarrow> unit io" where
  "local_set items = backend_call MSet (\<lambda>w. ((), w\<lparr>local := local w ++ items\<rparr>))"

definition local_remove :: "string list \<Rightarrow> unit io" where
  "local_remove keys = backend_call MRemove (\<lambda>w. ((), w\<lparr>local := local w |` (- set keys)\<rparr>))"

definition local_clear :: "unit io" where
  "local_clear = backend_call MClear (\<lambda>w. ((), w\<lparr>local := Map.empty\<rparr>))"

text \<open>\<^verbatim>\<open>Date.now()\<close>: the clock does not move during one operation.\<close>

definition Date_now :: "nat io" where
  "Date_now = (\<lambda>w. (Inr (clock w), w))"

section \<open>Reading a stored value at its declared type\<close>

text \<open>
  \<^verbatim>\<open>result[KEY] || []\<close> and its siblings. An absent key and a falsy value give the
  default. The TypeScript types promise the shape named by the key; a value of another
  shape is outside that contract and is read as the default here.
\<close>

definition or_workspaces :: "stored option \<Rightarrow> Workspace list" where
  "or_workspaces v = (case v of Some (WorkspaceArr ws) \<Rightarrow> ws | _ \<Rightarrow> [])"

definition or_tabSets :: "stored option \<Rightarrow> TabSet list" where
  "or_tabSets v = (case v of Some (TabSetArr ts) \<Rightarrow> ts | _ \<Rightarrow> [])"

definition or_highlights :: "stored option \<Rightarrow> (WorkspaceId \<times> Highlight list) list" where
  "or_highlights v = (case v of Some (HighlightObj h) \<Rightarrow> h | _ \<Rightarrow> [])"

text \<open>\<^verbatim>\<open>result[KEY] || null\<close> for the pointer: the empty string is falsy.\<close>

definition or_null :: "stored option \<Rightarrow> WorkspaceId option" where
  "or_null v = (case v of Some (Str s) \<Rightarrow> (if s = [] then None else Some s) | _ \<Rightarrow> None)"

text \<open>\<^verbatim>\<open>{ ...defaultSettings, ...stored }\<close>: a key of the stored object overrides.\<close>

definition spread :: "Settings \<Rightarrow> PartialSettings \<Rightarrow> Settings" where
  "spread s p =
     \<lparr> openaiApiKey = (case p_openaiApiKey p of Some v \<Rightarrow> Some v | None \<Rightarrow> openaiApiKey s),
       notionApiKey = (case p_notionApiKey p of Some v \<Rightarrow> Some v | None \<Rightarrow> notionApiKey s),
       notionIntegrationEnabled =
         (case p_notionIntegrationEnabled p of Some v \<Rightarrow> v | None \<Rightarrow> notionIntegrationEnabled s),
       focusModeEnabled =
         (case p_focusModeEnabled p of Some v \<Rightarrow> v | None \<Rightarrow> focusModeEnabled s),
       autoSaveTabSets =
         (case p_autoSaveTabSets p of Some v \<Rightarrow> v | None \<Rightarrow> autoSaveTabSets s),
       theme = (case p_theme p of Some v \<Rightarrow> Some v | None \<Rightarrow> theme s),
       maxHighlights = (case p_maxHighlights p of Some v \<Rightarrow> Some v | None \<Rightarrow> maxHighlights s) \<rparr>"

text \<open>\<^verbatim>\<open>{ ...A, ...B }\<close> for two partial objects.\<close>

definition spread_partial :: "PartialSettings \<Rightarrow> PartialSettings \<Rightarrow> PartialSettings" where
  "spread_partial a b =
     \<lparr> p_openaiApiKey = (case p_openaiApiKey b of Some v \<Rightarrow> Some v | None \<Rightarrow> p_openaiApiKey a),
       p_notionApiKey = (case p_notionApiKey b of Some v \<Rightarrow> Some v | None \<Rightarrow> p_notionApiKey a),
       p_notionIntegrationEnabled =
         (case p_notionIntegrationEnabled b of Some v \<Rightarrow> Some v
          | None \<Rightarrow> p_notionIntegrationEnabled a),
       p_focusModeEnabled =
         (case p_focusModeEnabled b of Some v \<Rightarrow> Some v | None \<Rightarrow> p_focusModeEnabled a),
       p_autoSaveTabSets =
         (case p_autoSaveTabSets b of Some v \<Rightarrow> Some v | None \<Rightarrow> p_autoSaveTabSets a),
       p_theme = (case p_theme b of Some v \<Rightarrow> Some v | None \<Rightarrow> p_theme a),
       p_maxHighlights =
         (case p_maxHighlights b of Some v \<Rightarrow> Some v | None \<Rightarrow> p_maxHighlights a) \<rparr>"

text \<open>The object written for a full settings record: its present keys.\<close>

definition settings_object :: "Settings \<Rightarrow> PartialSettings" where
  "settings_object s =
     \<lparr> p_openaiApiKey = openaiApiKey s,
       p_notionApiKey = notionApiKey s,
       p_notionIntegrationEnabled = Some (notionIntegrationEnabled s),
       p_focusModeEnabled = Some (focusModeEnabled s),
       p_autoSaveTabSets = Some (autoSaveTabSets s),
       p_theme = theme s,
       p_maxHighlights = maxHighlights s \<rparr>"

definition no_settings :: PartialSettings where
  "no_settings =
     \<lparr> p_openaiApiKey = None, p_notionApiKey = None, p_notionIntegrationEnabled = None,
       p_focusModeEnabled = None, p_autoSaveTabSets = None, p_theme = None,
       p_maxHighlights = None \<rparr>"

definition or_settings :: "stored option \<Rightarrow> PartialSettings" where
  "or_settings v = (case v of Some (SettingsObj p) \<Rightarrow> p | _ \<Rightarrow> no_settings)"

definition defaultSettings :: Settings where
  "defaultSettings =
     \<lparr> openaiApiKey = None, notionApiKey = None, notionIntegrationEnabled = False,
       focusModeEnabled = False, autoSaveTabSets = False, theme = Some Auto,
       maxHighlights = Some 50 \<rparr>"

text \<open>\<^verbatim>\<open>findIndex\<close>: the first position that satisfies the test, or -1.\<close>

fun findIndex :: "('a \<Rightarrow> bool) \<Rightarrow> 'a list \<Rightarrow> int" where
  "findIndex P [] = - 1"
| "findIndex P (x # xs) =
     (if P x then 0 else (let i = findIndex P xs in if i < 0 then - 1 else i + 1))"

text \<open>\<^verbatim>\<open>xs.slice(0, n)\<close>: a negative end counts from the end of the array.\<close>

definition slice0 :: "'a list \<Rightarrow> int \<Rightarrow> 'a list" where
  "slice0 xs n = (if n < 0 then take (length xs - nat (- n)) xs else take (nat n) xs)"

text \<open>The decimal text of a number, as a template string prints it.\<close>

function show_nat :: "nat \<Rightarrow> string" where
  "show_nat n =
     (if n < 10 then [char_of (48 + n)]
      else show_nat (n div 10) @ [char_of (48 + n mod 10)])"
  by pat_completeness auto
termination
  by (relation "measure (\<lambda>n. n)") auto

declare show_nat.simps [simp del]

section \<open>\<^verbatim>\<open>StorageManager\<close>\<close>

subsection \<open>Workspace management\<close>

definition listWorkspaces :: "Workspace list io" where
  "listWorkspaces =
     try_catch
       (await (local_get [WORKSPACES]) (\<lambda>result.
        resolve (or_workspaces (result WORKSPACES))))
       (\<lambda>error. resolve [])"

definition getWorkspace :: "WorkspaceId \<Rightarrow> Workspace option io" where
  "getWorkspace id' =
     try_catch
       (await listWorkspaces (\<lambda>workspaces.
        resolve (find (\<lambda>w. ws_id w = id') workspaces)))
       (\<lambda>error. resolve None)"

definition saveWorkspace :: "Workspace \<Rightarrow> unit io" where
  "saveWorkspace workspace =
     try_catch
       (await listWorkspaces (\<lambda>workspaces.
        let existingIndex = findIndex (\<lambda>w. ws_id w = ws_id workspace) workspaces in
        await (if existingIndex \<ge> 0
               then await Date_now (\<lambda>now.
                    resolve (workspaces[nat existingIndex := workspace\<lparr>ws_updatedAt := now\<rparr>]))
               else resolve (workspaces @ [workspace])) (\<lambda>workspaces'.
        local_set [WORKSPACES \<mapsto> WorkspaceArr workspaces'])))
       (\<lambda>error. throw (Error (''Failed to save workspace: '' @ error_text error)))"

definition getActiveWorkspace :: "WorkspaceId option io" where
  "getActiveWorkspace =
     try_catch
       (await (sync_get [ACTIVE_WORKSPACE]) (\<lambda>result.
        resolve (or_null (result ACTIVE_WORKSPACE))))
       (\<lambda>error. resolve None)"

definition setActiveWorkspace :: "WorkspaceId option \<Rightarrow> unit io" where
  "setActiveWorkspace id' =
     try_catch
       (await (case id' of
                 None \<Rightarrow> sync_remove [ACTIVE_WORKSPACE]
               | Some i \<Rightarrow> sync_set [ACTIVE_WORKSPACE \<mapsto> Str i]) (\<lambda>_.
        await listWorkspaces (\<lambda>workspaces.
        await Date_now (\<lambda>now.
        let updatedWorkspaces =
              map (\<lambda>w. w\<lparr> ws_isActive := (Some (ws_id w) = id'),
                         ws_updatedAt := (if Some (ws_id w) = id' then now
                                          else ws_updatedAt w) \<rparr>) workspaces in
        local_set [WORKSPACES \<mapsto> WorkspaceArr updatedWorkspaces]))))
       (\<lambda>error. throw (Error (''Failed to set active workspace: '' @ error_text error)))"

subsection \<open>Tab set management\<close>

definition getAllTabSets :: "TabSet list io" where
  "getAllTabSets =
     await (local_get [TAB_SETS]) (\<lambda>result.
     resolve (or_tabSets (result TAB_SETS)))"

text \<open>
  \<^verbatim>\<open>saveTabSet\<close> draws two values from its environment besides the clock: the text of
  \<^verbatim>\<open>Math.random().toString(36).substr(2, 9)\<close> and that of
  \<^verbatim>\<open>new Date().toLocaleDateString()\<close>. They are parameters here. An omitted name and an
  empty one both take the default label.
\<close>

definition saveTabSet ::
  "string \<Rightarrow> string \<Rightarrow> WorkspaceId \<Rightarrow> TabRef list \<Rightarrow> string option \<Rightarrow> string io" where
  "saveTabSet random localeDate workspaceId tabs name =
     try_catch
       (await Date_now (\<lambda>now.
        let tabSetId = ''ts_'' @ show_nat now @ ''_'' @ random;
            tabSet = \<lparr> ts_id = tabSetId,
                       ts_workspaceId = workspaceId,
                       ts_name = (case name of
                                    None \<Rightarrow> ''Tab Set '' @ localeDate
                                  | Some n \<Rightarrow> if n = [] then ''Tab Set '' @ localeDate else n),
                       ts_tabs = tabs,
                       ts_createdAt = now,
                       ts_updatedAt = now \<rparr> in
        await getAllTabSets (\<lambda>allTabSets.
        await (local_set [TAB_SETS \<mapsto> TabSetArr (allTabSets @ [tabSet])]) (\<lambda>_.
        resolve tabSetId))))
       (\<lambda>error. throw (Error (''Failed to save tab set: '' @ error_text error)))"

definition getTabSet :: "string \<Rightarrow> TabSet option io" where
  "getTabSet id' =
     try_catch
       (await getAllTabSets (\<lambda>allTabSets.
        resolve (find (\<lambda>ts. ts_id ts = id') allTabSets)))
       (\<lambda>error. resolve None)"

definition getWorkspaceTabSets :: "WorkspaceId \<Rightarrow> TabSet list io" where
  "getWorkspaceTabSets workspaceId =
     try_catch
       (await getAllTabSets (\<lambda>allTabSets.
        resolve (filter (\<lambda>ts. ts_workspaceId ts = workspaceId) allTabSets)))
       (\<lambda>error. resolve [])"

subsection \<open>Settings management\<close>

definition getSettings :: "Settings io" where
  "getSettings =
     try_catch
       (await (sync_get [SETTINGS]) (\<lambda>result.
        resolve (spread defaultSettings (or_settings (result SETTINGS)))))
       (\<lambda>error. resolve defaultSettings)"

definition saveSettings :: "PartialSettings \<Rightarrow> unit io" where
  "saveSettings settings =
     try_catch
       (await getSettings (\<lambda>currentSettings.
        let updatedSettings = spread currentSettings settings in
        sync_set [SETTINGS \<mapsto> SettingsObj (settings_object updatedSettings)]))
       (\<lambda>error. throw (Error (''Failed to save settings: '' @ error_text error)))"

subsection \<open>Highlight management\<close>

definition getAllHighlights :: "(WorkspaceId \<times> Highlight list) list io" where
  "getAllHighlights =
     await (local_get [HIGHLIGHTS]) (\<lambda>result.
     resolve (or_highlights (result HIGHLIGHTS)))"

text \<open>
  The highlight object is a plain JavaScript object. The association list holds its own
  properties in the order \<^verbatim>\<open>Object.entries\<close> and \<^verbatim>\<open>Object.values\<close> enumerate them: the
  keys that are array indices first, in ascending numeric order, then the other keys in
  the order of their creation. Besides its own properties the object has those it
  inherits from \<^verbatim>\<open>Object.prototype\<close>: they are truthy, and they are neither arrays nor
  enumerated.
\<close>

definition inherited_properties :: "string list" where
  "inherited_properties =
     [''constructor'', ''__defineGetter__'', ''__defineSetter__'', ''hasOwnProperty'',
      ''__lookupGetter__'', ''__lookupSetter__'', ''isPrototypeOf'', ''propertyIsEnumerable'',
      ''toString'', ''valueOf'', ''__proto__'', ''toLocaleString'']"

datatype 'v property = Own 'v | Inherited | Absent

text \<open>\<^verbatim>\<open>obj[key]\<close>: an own property hides an inherited one.\<close>

definition obj_get :: "(string \<times> 'v) list \<Rightarrow> string \<Rightarrow> 'v property" where
  "obj_get obj key =
     (case map_of obj key of
        Some v \<Rightarrow> Own v
      | None \<Rightarrow> if key \<in> set inherited_properties then Inherited else Absent)"

text \<open>
  An array index is the decimal text, without leading zeros, of a number below
  \<open>2\<^sup>3\<^sup>2 - 1\<close>.
\<close>

definition index_value :: "string \<Rightarrow> nat" where
  "index_value key = foldl (\<lambda>n c. 10 * n + (of_char c - 48)) 0 key"

definition is_index :: "string \<Rightarrow> bool" where
  "is_index key \<longleftrightarrow>
     key \<noteq> [] \<and> list_all (\<lambda>c. c \<in> set ''0123456789'') key \<and>
     (key = ''0'' \<or> hd key \<noteq> CHR ''0'') \<and> index_value key < 2 ^ 32 - 1"

text \<open>A new array-index key takes its place among the array-index keys.\<close>

fun insert_index :: "string \<Rightarrow> 'v \<Rightarrow> (string \<times> 'v) list \<Rightarrow> (string \<times> 'v) list" where
  "insert_index key v [] = [(key, v)]"
| "insert_index key v (p # ps) =
     (if is_index (fst p) \<and> index_value (fst p) < index_value key
      then p # insert_index key v ps else (key, v) # p # ps)"

text \<open>
  \<^verbatim>\<open>obj[key] = v\<close> for an array \<open>v\<close>: the value of an own key is replaced in place;
  with no such own key, \<^verbatim>\<open>__proto__\<close> is the inherited setter, which changes the
  prototype and no own property; any other key is created, an array index in its numeric
  place and another key last.
\<close>

definition obj_set :: "string \<Rightarrow> 'v \<Rightarrow> (string \<times> 'v) list \<Rightarrow> (string \<times> 'v) list" where
  "obj_set key v obj =
     (if map_of obj key \<noteq> None then AList.update key v obj
      else if key = ''__proto__'' then obj
      else if is_index key then insert_index key v obj
      else obj @ [(key, v)])"

text \<open>The own array under a key, and the empty array when there is none.\<close>

definition group_of :: "(WorkspaceId \<times> Highlight list) list \<Rightarrow> WorkspaceId \<Rightarrow> Highlight list" where
  "group_of allHighlights workspaceId =
     (case map_of allHighlights workspaceId of None \<Rightarrow> [] | Some hs \<Rightarrow> hs)"

text \<open>
  \<^verbatim>\<open>allHighlights[workspaceId].unshift(highlight)\<close>: an inherited property has no
  \<^verbatim>\<open>unshift\<close>, and neither has \<^verbatim>\<open>undefined\<close>.
\<close>

definition unshift ::
  "(WorkspaceId \<times> Highlight list) list \<Rightarrow> WorkspaceId \<Rightarrow> Highlight
     \<Rightarrow> (WorkspaceId \<times> Highlight list) list io" where
  "unshift allHighlights workspaceId highlight =
     (case obj_get allHighlights workspaceId of
        Own hs \<Rightarrow> resolve (obj_set workspaceId (highlight # hs) allHighlights)
      | Inherited \<Rightarrow>
          throw (TypeError ''allHighlights[workspaceId].unshift is not a function'')
      | Absent \<Rightarrow>
          throw (TypeError ''Cannot read properties of undefined (reading 'unshift')''))"

definition appendHighlight :: "WorkspaceId \<Rightarrow> Highlight \<Rightarrow> unit io" where
  "appendHighlight workspaceId highlight =
     try_catch
       (await getAllHighlights (\<lambda>allHighlights.
        let allHighlights1 =
              (if obj_get allHighlights workspaceId = Absent
               then obj_set workspaceId [] allHighlights else allHighlights) in
        await (unshift allHighlights1 workspaceId highlight) (\<lambda>allHighlights2.
        await getSettings (\<lambda>settings.
        let maxHighlights' =
              (case maxHighlights settings of
                 None \<Rightarrow> 50
               | Some n \<Rightarrow> if n = 0 then 50 else n);
            allHighlights3 =
              (if int (length (group_of allHighlights2 workspaceId)) > maxHighlights'
               then obj_set workspaceId
                      (slice0 (group_of allHighlights2 workspaceId) maxHighlights')
                      allHighlights2
               else allHighlights2) in
        local_set [HIGHLIGHTS \<mapsto> HighlightObj allHighlights3]))))
       (\<lambda>error. throw (Error (''Failed to append highlight: '' @ error_text error)))"

text \<open>
  The default \<^verbatim>\<open>limit = 50\<close> of \<^verbatim>\<open>getHighlights\<close> is the caller passing 50. An inherited
  property is truthy and has no \<^verbatim>\<open>slice\<close>.
\<close>

definition getHighlights :: "WorkspaceId \<Rightarrow> int \<Rightarrow> Highlight list io" where
  "getHighlights workspaceId limit =
     try_catch
       (await getAllHighlights (\<lambda>allHighlights.
        case obj_get allHighlights workspaceId of
          Own workspaceHighlights \<Rightarrow> resolve (slice0 workspaceHighlights limit)
        | Inherited \<Rightarrow> throw (TypeError ''workspaceHighlights.slice is not a function'')
        | Absent \<Rightarrow> resolve (slice0 [] limit)))
       (\<lambda>error. resolve [])"

subsection \<open>Deleting a workspace\<close>

definition deleteWorkspace :: "WorkspaceId \<Rightarrow> unit io" where
  "deleteWorkspace id' =
     try_catch
       (await listWorkspaces (\<lambda>workspaces.
        let filteredWorkspaces = filter (\<lambda>w. ws_id w \<noteq> id') workspaces in
        await (local_set [WORKSPACES \<mapsto> WorkspaceArr filteredWorkspaces]) (\<lambda>_.
        await getActiveWorkspace (\<lambda>activeWorkspace.
        await (if activeWorkspace = Some id' then setActiveWorkspace None
               else resolve ()) (\<lambda>_.
        await getAllTabSets (\<lambda>tabSets.
        let filteredTabSets = filter (\<lambda>ts. ts_workspaceId ts \<noteq> id') tabSets in
        await (local_set [TAB_SETS \<mapsto> TabSetArr filteredTabSets]) (\<lambda>_.
        await getAllHighlights (\<lambda>highlights.
        let filteredHighlights =
              fold (\<lambda>(workspaceId, highlightList) acc.
                      if workspaceId \<noteq> id'
                      then obj_set workspaceId highlightList acc else acc)
                   highlights [] in
        local_set [HIGHLIGHTS \<mapsto> HighlightObj filteredHighlights]))))))))
       (\<lambda>error. throw (Error (''Failed to delete workspace: '' @ error_text error)))"

subsection \<open>Utility methods\<close>

definition clearAllData :: "unit io" where
  "clearAllData =
     try_catch
       (await (promise_all2 sync_clear local_clear) (\<lambda>_. resolve ()))
       (\<lambda>error. throw (Error (''Failed to clear all data: '' @ error_text error)))"

record export =
  ex_sync :: "string \<rightharpoonup> stored"
  ex_local :: "string \<rightharpoonup> stored"
  ex_exportedAt :: nat
  ex_version :: string

definition exportData :: "export io" where
  "exportData =
     try_catch
       (await (promise_all2 sync_get_all local_get_all) (\<lambda>(syncData, localData).
        await Date_now (\<lambda>now.
        resolve \<lparr> ex_sync = syncData, ex_local = localData,
                  ex_exportedAt = now, ex_version = ''1.0.0'' \<rparr>)))
       (\<lambda>error. throw (Error (''Failed to export data: '' @ error_text error)))"

text \<open>\<^verbatim>\<open>importData\<close> reads the two maps of its argument and nothing else.\<close>

definition importData :: "export \<Rightarrow> unit io" where
  "importData data =
     try_catch
       (await (promise_all2 (sync_set (ex_sync data)) (local_set (ex_local data)))
          (\<lambda>_. resolve ()))
       (\<lambda>error. throw (Error (''Failed to import data: '' @ error_text error)))"

section \<open>\<^verbatim>\<open>ExtensionStorage\<close>, the legacy facade\<close>



text \<open>
  The unchecked casts of \<^verbatim>\<open>set\<close>: \<^verbatim>\<open>value as WorkspaceId\<close> and \<^verbatim>\<open>value as Settings\<close>.
  A caller passes a string (or \<^verbatim>\<open>null\<close>) and a settings object; another shape is
  outside the cast's contract and is read as \<^verbatim>\<open>null\<close> and as the empty object here.
\<close>

definition as_WorkspaceId :: "stored \<Rightarrow> WorkspaceId option" where
  "as_WorkspaceId v = (case v of Str s \<Rightarrow> Some s | _ \<Rightarrow> None)"

definition as_Settings :: "stored \<Rightarrow> PartialSettings" where
  "as_Settings v = (case v of SettingsObj p \<Rightarrow> p | _ \<Rightarrow> no_settings)"

definition ExtensionStorage_set :: "string \<Rightarrow> stored \<Rightarrow> unit io" where
  "ExtensionStorage_set key value =
     (if key = ''workspaces'' then local_set [WORKSPACES \<mapsto> value]
      else if key = ''activeWorkspaceId'' then setActiveWorkspace (as_WorkspaceId value)
      else if key = ''config'' then saveSettings (as_Settings value)
      else if prefix ''quickNotes_'' key then local_set [key \<mapsto> value]
      else resolve ())"

definition ExtensionStorage_remove :: "string \<Rightarrow> unit io" where
  "ExtensionStorage_remove key =
     (if key = ''activeWorkspaceId'' then setActiveWorkspace None
      else local_remove [key])"

section \<open>Auxiliary definitions\<close>

text \<open>The array \<^verbatim>\<open>saveWorkspace\<close> writes back, given the clock and the array it read.\<close>

definition upsert :: "nat \<Rightarrow> Workspace \<Rightarrow> Workspace list \<Rightarrow> Workspace list" where
  "upsert now workspace workspaces =
     (if findIndex (\<lambda>x. ws_id x = ws_id workspace) workspaces \<ge> 0
      then workspaces[nat (findIndex (\<lambda>x. ws_id x = ws_id workspace) workspaces) :=
                        workspace\<lparr>ws_updatedAt := now\<rparr>]
      else workspaces @ [workspace])"

text \<open>The mapping function of \<^verbatim>\<open>setActiveWorkspace\<close>.\<close>

definition activate :: "WorkspaceId option \<Rightarrow> nat \<Rightarrow> Workspace \<Rightarrow> Workspace" where
  "activate i now = (\<lambda>x.
     x\<lparr> ws_isActive := (Some (ws_id x) = i),
        ws_updatedAt := (if Some (ws_id x) = i then now else ws_updatedAt x) \<rparr>)"

text \<open>Time passes between two calls: the clock reads \<open>t\<close> from now on.\<close>

definition tick :: "nat \<Rightarrow> unit io" where
  "tick t = (\<lambda>w. (Inr (), w\<lparr>clock := t\<rparr>))"

text \<open>A sequence of \<^verbatim>\<open>setActiveWorkspace\<close> calls, each awaited, made at the given times.\<close>

fun setActiveWorkspace_calls :: "(nat \<times> WorkspaceId option) list \<Rightarrow> unit io" where
  "setActiveWorkspace_calls [] = resolve ()"
| "setActiveWorkspace_calls ((t, i) # calls) =
     await (tick t) (\<lambda>_.
     await (setActiveWorkspace i) (\<lambda>_.
     setActiveWorkspace_calls calls))"

text \<open>The highlight object \<^verbatim>\<open>deleteWorkspace\<close> rebuilds, entry by entry.\<close>

definition without_group ::
  "WorkspaceId \<Rightarrow> (WorkspaceId \<times> Highlight list) list \<Rightarrow> (WorkspaceId \<times> Highlight list) list" where
  "without_group i highlights =
     fold (\<lambda>(workspaceId, highlightList) acc.
             if workspaceId \<noteq> i then obj_set workspaceId highlightList acc else acc)
          highlights []"

text \<open>The cap \<^verbatim>\<open>appendHighlight\<close> applies: \<^verbatim>\<open>settings.maxHighlights || 50\<close>.\<close>

definition highlight_cap :: "Settings \<Rightarrow> int" where
  "highlight_cap settings =
     (case maxHighlights settings of None \<Rightarrow> 50 | Some n \<Rightarrow> if n = 0 then 50 else n)"

text \<open>
  The highlight object \<^verbatim>\<open>appendHighlight\<close> writes back, given the cap it read, when
  the workspace id is not an inherited property of the object it read.
\<close>

definition with_highlight ::
  "int \<Rightarrow> WorkspaceId \<Rightarrow> Highlight \<Rightarrow> (WorkspaceId \<times> Highlight list) list
     \<Rightarrow> (WorkspaceId \<times> Highlight list) list" where
  "with_highlight cap workspaceId highlight allHighlights =
     (let allHighlights1 =
            (if obj_get allHighlights workspaceId = Absent
             then obj_set workspaceId [] allHighlights else allHighlights);
          allHighlights2 =
            obj_set workspaceId (highlight # group_of allHighlights1 workspaceId)
              allHighlights1
      in if int (length (group_of allHighlights2 workspaceId)) > cap
         then obj_set workspaceId (slice0 (group_of allHighlights2 workspaceId) cap)
                allHighlights2
         else allHighlights2)"

text \<open>A sequence of \<^verbatim>\<open>appendHighlight\<close> calls on one workspace, each awaited.\<close>

fun appendHighlight_calls :: "WorkspaceId \<Rightarrow> Highlight list \<Rightarrow> unit io" where
  "appendHighlight_calls workspaceId [] = resolve ()"
| "appendHighlight_calls workspaceId (h # hs) =
     await (appendHighlight workspaceId h) (\<lambda>_. appendHighlight_calls workspaceId hs)"

text \<open>The rejected backend writes so far: every rejected call but the reads.\<close>

definition rejected_writes :: "world \<Rightarrow> (call_kind \<times> string) list" where
  "rejected_writes w = filter (\<lambda>r. fst r \<noteq> MGet) (rejected w)"

text \<open>
  Two properties of an operation, used to follow rejections through \<^verbatim>\<open>await\<close> and
  \<^verbatim>\<open>try\<close>: it resolves only if none of its calls selected by \<open>P\<close> was rejected; none of
  its calls selected by \<open>P\<close> is ever rejected.
\<close>

definition clean :: "(call_kind \<times> string \<Rightarrow> bool) \<Rightarrow> 'a io \<Rightarrow> bool" where
  "clean P m \<longleftrightarrow>
     (\<forall>w x w'. m w = (Inr x, w') \<longrightarrow> filter P (rejected w') = filter P (rejected w))"

definition quiet :: "(call_kind \<times> string \<Rightarrow> bool) \<Rightarrow> 'a io \<Rightarrow> bool" where
  "quiet P m \<longleftrightarrow> (\<forall>w. filter P (rejected (snd (m w))) = filter P (rejected w))"

section \<open>Example values\<close>

definition exA :: Workspace where
  "exA = \<lparr> ws_id = ''a'', ws_name = ''Research'', ws_description = None, ws_createdAt = 1,
           ws_updatedAt = 1, ws_isActive = False, ws_color = None, ws_icon = None \<rparr>"

definition exB :: Workspace where
  "exB = \<lparr> ws_id = ''b'', ws_name = ''Travel'', ws_description = None, ws_createdAt = 2,
           ws_updatedAt = 2, ws_isActive = False, ws_color = None, ws_icon = None \<rparr>"

text \<open>A store with two workspaces and nothing else, on a backend that does not fail.\<close>

definition ex_world :: world where
  "ex_world = \<lparr> sync = Map.empty, local = [WORKSPACES \<mapsto> WorkspaceArr [exA, exB]],
                clock = 100, faults = [], rejected = [] \<rparr>"

definition exTab :: TabRef where
  "exTab = \<lparr> tab_id = ''tab1'', tab_url = ''https://example.com'', tab_title = ''Example'',
             tab_favIconUrl = None, tab_pinned = False, tab_index = 0 \<rparr>"

definition exSet :: TabSet where
  "exSet = \<lparr> ts_id = ''ts_1_x'', ts_workspaceId = ''a'', ts_name = ''Set1'', ts_tabs = [exTab],
             ts_createdAt = 3, ts_updatedAt = 3 \<rparr>"

definition exH1 :: Highlight where
  "exH1 = \<lparr> hl_id = ''h1'', hl_text = ''Highlight 1'', hl_url = ''https://example.com'',
            hl_title = ''Example'', hl_createdAt = 1, hl_tags = None \<rparr>"

definition exH2 :: Highlight where
  "exH2 = \<lparr> hl_id = ''h2'', hl_text = ''Highlight 2'', hl_url = ''https://example.com'',
            hl_title = ''Example'', hl_createdAt = 2, hl_tags = None \<rparr>"

definition exH3 :: Highlight where
  "exH3 = \<lparr> hl_id = ''h3'', hl_text = ''Highlight 3'', hl_url = ''https://example.com'',
            hl_title = ''Example'', hl_createdAt = 3, hl_tags = None \<rparr>"

text \<open>
  A store where workspace \<open>a\<close> is active and owns a tab set and a highlight group;
  workspace \<open>b\<close> owns a highlight group too.
\<close>

definition ex_store :: world where
  "ex_store =
     \<lparr> sync = [ACTIVE_WORKSPACE \<mapsto> Str ''a''],
       local = [WORKSPACES \<mapsto> WorkspaceArr [exA\<lparr>ws_isActive := True\<rparr>, exB],
                TAB_SETS \<mapsto> TabSetArr [exSet],
                HIGHLIGHTS \<mapsto> HighlightObj [(''a'', [exH2, exH1]), (''b'', [exH3])]],
       clock = 100, faults = [], rejected = [] \<rparr>"

text \<open>An empty store whose settings record holds \<^verbatim>\<open>maxHighlights: 2\<close>.\<close>

definition ex_cap2 :: world where
  "ex_cap2 = \<lparr> sync = [SETTINGS \<mapsto> SettingsObj (no_settings\<lparr>p_maxHighlights := Some 2\<rparr>)],
               local = Map.empty, clock = 100, faults = [], rejected = [] \<rparr>"

text \<open>An empty store whose settings record holds \<^verbatim>\<open>maxHighlights: 0\<close>.\<close>

definition ex_cap0 :: world where
  "ex_cap0 = \<lparr> sync = [SETTINGS \<mapsto> SettingsObj (no_settings\<lparr>p_maxHighlights := Some 0\<rparr>)],
               local = Map.empty, clock = 100, faults = [], rejected = [] \<rparr>"

text \<open>The empty store, on a backend that does not fail.\<close>

definition ex_empty :: world where
  "ex_empty = \<lparr> sync = Map.empty, local = Map.empty, clock = 100, faults = [], rejected = [] \<rparr>"

text \<open>
  Stores on a failing backend: the first call is rejected; the second and third calls are
  rejected.
\<close>

definition ex_unavailable :: world where
  "ex_unavailable = ex_store\<lparr>faults := [Some ''backend unavailable'']\<rparr>"

definition ex_quota :: world where
  "ex_quota = ex_store\<lparr>faults := [None, Some ''quota exceeded'', Some ''quota exceeded'']\<rparr>"

definition ex_export :: export where
  "ex_export = \<lparr> ex_sync = Map.empty, ex_local = [WORKSPACES \<mapsto> WorkspaceArr [exB]],
                 ex_exportedAt = 50, ex_version = ''1.0.0'' \<rparr>"

text \<open>The scenario of the specification, up to the two highlights.\<close>

definition scenario :: "unit io" where
  "scenario =
     await (saveWorkspace exA) (\<lambda>_.
     await (setActiveWorkspace (Some ''a'')) (\<lambda>_.
     await (saveTabSet ''k3j9x0q1z'' ''11/3/2026'' ''a'' [exTab] (Some ''Set1'')) (\<lambda>_.
     await (appendHighlight ''a'' exH1) (\<lambda>_.
     appendHighlight ''a'' exH2))))"

section \<open>The operations on a backend that does not fail\<close>

lemmas io_defs = resolve_def throw_def await_def try_catch_def promise_all2_def Date_now_def

lemma keys_distinct [simp]:
  "WORKSPACES \<noteq> TAB_SETS" "WORKSPACES \<noteq> HIGHLIGHTS" "TAB_SETS \<noteq> HIGHLIGHTS"
  "TAB_SETS \<noteq> WORKSPACES" "HIGHLIGHTS \<noteq> WORKSPACES" "HIGHLIGHTS \<noteq> TAB_SETS"
  "SETTINGS \<noteq> ACTIVE_WORKSPACE" "ACTIVE_WORKSPACE \<noteq> SETTINGS"
  by (simp_all add: WORKSPACES_def TAB_SETS_def HIGHLIGHTS_def SETTINGS_def ACTIVE_WORKSPACE_def)

lemma backend_call_ok:
  "faults w = [] \<Longrightarrow> backend_call meth act w = (case act w of (x, w') \<Rightarrow> (Inr x, w'))"
  by (simp add: backend_call_def)

lemma sync_get_ok: "faults w = [] \<Longrightarrow> sync_get keys w = (Inr (sync w |` set keys), w)"
  by (simp add: sync_get_def backend_call_ok)

lemma sync_get_all_ok: "faults w = [] \<Longrightarrow> sync_get_all w = (Inr (sync w), w)"
  by (simp add: sync_get_all_def backend_call_ok)

lemma sync_set_ok: "faults w = [] \<Longrightarrow> sync_set items w = (Inr (), w\<lparr>sync := sync w ++ items\<rparr>)"
  by (simp add: sync_set_def backend_call_ok)

lemma sync_remove_ok:
  "faults w = [] \<Longrightarrow> sync_remove keys w = (Inr (), w\<lparr>sync := sync w |` (- set keys)\<rparr>)"
  by (simp add: sync_remove_def backend_call_ok)

lemma sync_clear_ok: "faults w = [] \<Longrightarrow> sync_clear w = (Inr (), w\<lparr>sync := Map.empty\<rparr>)"
  by (simp add: sync_clear_def backend_call_ok)

lemma local_get_ok: "faults w = [] \<Longrightarrow> local_get keys w = (Inr (local w |` set keys), w)"
  by (simp add: local_get_def backend_call_ok)

lemma local_get_all_ok: "faults w = [] \<Longrightarrow> local_get_all w = (Inr (local w), w)"
  by (simp add: local_get_all_def backend_call_ok)

lemma local_set_ok: "faults w = [] \<Longrightarrow> local_set items w = (Inr (), w\<lparr>local := local w ++ items\<rparr>)"
  by (simp add: local_set_def backend_call_ok)

lemma local_remove_ok:
  "faults w = [] \<Longrightarrow> local_remove keys w = (Inr (), w\<lparr>local := local w |` (- set keys)\<rparr>)"
  by (simp add: local_remove_def backend_call_ok)

lemma local_clear_ok: "faults w = [] \<Longrightarrow> local_clear w = (Inr (), w\<lparr>local := Map.empty\<rparr>)"
  by (simp add: local_clear_def backend_call_ok)

lemmas backend_ok = sync_get_ok sync_get_all_ok sync_set_ok sync_remove_ok sync_clear_ok
  local_get_ok local_get_all_ok local_set_ok local_remove_ok local_clear_ok

lemma listWorkspaces_ok:
  "faults w = [] \<Longrightarrow> listWorkspaces w = (Inr (or_workspaces (local w WORKSPACES)), w)"
  by (simp add: listWorkspaces_def io_defs backend_ok)

lemma getWorkspace_ok:
  "faults w = [] \<Longrightarrow>
   getWorkspace i w = (Inr (find (\<lambda>x. ws_id x = i) (or_workspaces (local w WORKSPACES))), w)"
  by (simp add: getWorkspace_def io_defs listWorkspaces_ok)

lemma getActiveWorkspace_ok:
  "faults w = [] \<Longrightarrow> getActiveWorkspace w = (Inr (or_null (sync w ACTIVE_WORKSPACE)), w)"
  by (simp add: getActiveWorkspace_def io_defs backend_ok)

lemma saveWorkspace_ok:
  "faults w = [] \<Longrightarrow>
   saveWorkspace workspace w =
     (Inr (), w\<lparr>local := (local w)(WORKSPACES \<mapsto>
        WorkspaceArr (upsert (clock w) workspace (or_workspaces (local w WORKSPACES))))\<rparr>)"
  by (simp add: saveWorkspace_def io_defs listWorkspaces_ok backend_ok upsert_def Let_def)

lemma setActiveWorkspace_ok:
  "faults w = [] \<Longrightarrow>
   setActiveWorkspace i w =
     (Inr (), w\<lparr> sync := (case i of None \<Rightarrow> sync w |` (- {ACTIVE_WORKSPACE})
                           | Some s \<Rightarrow> (sync w)(ACTIVE_WORKSPACE \<mapsto> Str s)),
                 local := (local w)(WORKSPACES \<mapsto>
                   WorkspaceArr (map (activate i (clock w)) (or_workspaces (local w WORKSPACES)))) \<rparr>)"
  by (cases i) (simp_all add: setActiveWorkspace_def io_defs listWorkspaces_ok backend_ok
       activate_def Let_def cong: if_cong)

lemma getAllTabSets_ok:
  "faults w = [] \<Longrightarrow> getAllTabSets w = (Inr (or_tabSets (local w TAB_SETS)), w)"
  by (simp add: getAllTabSets_def io_defs backend_ok)

lemma getWorkspaceTabSets_ok:
  "faults w = [] \<Longrightarrow>
   getWorkspaceTabSets i w =
     (Inr (filter (\<lambda>ts. ts_workspaceId ts = i) (or_tabSets (local w TAB_SETS))), w)"
  by (simp add: getWorkspaceTabSets_def io_defs getAllTabSets_ok)

lemma getSettings_ok:
  "faults w = [] \<Longrightarrow>
   getSettings w = (Inr (spread defaultSettings (or_settings (sync w SETTINGS))), w)"
  by (simp add: getSettings_def io_defs backend_ok)

lemma saveSettings_ok:
  "faults w = [] \<Longrightarrow>
   saveSettings p w =
     (Inr (), w\<lparr>sync := (sync w)(SETTINGS \<mapsto> SettingsObj (settings_object
        (spread (spread defaultSettings (or_settings (sync w SETTINGS))) p)))\<rparr>)"
  by (simp add: saveSettings_def io_defs getSettings_ok backend_ok Let_def)

lemma map_of_insert_index:
  "map_of ps key = None \<Longrightarrow> map_of (insert_index key v ps) = (map_of ps)(key \<mapsto> v)"
proof (induction ps)
  case Nil
  then show ?case by simp
next
  case (Cons p ps)
  obtain k x where p: "p = (k, x)" by (cases p)
  from Cons.prems p have ne: "k \<noteq> key" and none: "map_of ps key = None"
    by (auto split: if_splits)
  show ?case
    using Cons.IH [OF none] ne by (auto simp: p fun_upd_twist)
qed

lemma keys_insert_index: "fst ` set (insert_index key v ps) = insert key (fst ` set ps)"
  by (induction ps) auto

lemma proto_inherited: "key \<notin> set inherited_properties \<Longrightarrow> key \<noteq> ''__proto__''"
  by (auto simp: inherited_properties_def)

lemma map_of_snoc:
  "map_of obj key = None \<Longrightarrow> map_of (obj @ [(key, v)]) = (map_of obj)(key \<mapsto> v)"
  by (rule ext) (auto simp: map_add_def split: option.splits)

lemma map_of_obj_set:
  "key \<noteq> ''__proto__'' \<or> map_of obj key \<noteq> None \<Longrightarrow>
   map_of (obj_set key v obj) = (map_of obj)(key \<mapsto> v)"
  by (auto simp: obj_set_def update_conv' map_of_insert_index map_of_snoc simp del: map_of_append)

lemma keys_obj_set: "fst ` set (obj_set key v obj) \<subseteq> insert key (fst ` set obj)"
  by (auto simp: obj_set_def dom_update keys_insert_index)

lemma map_of_obj_set_other:
  "k' \<noteq> key \<Longrightarrow> map_of (obj_set key v obj) k' = map_of obj k'"
  by (auto simp: obj_set_def update_conv' map_of_insert_index map_of_snoc simp del: map_of_append)

lemma group_of_obj_set:
  "key \<noteq> ''__proto__'' \<or> map_of obj key \<noteq> None \<Longrightarrow> group_of (obj_set key v obj) key = v"
  by (simp add: group_of_def map_of_obj_set)

lemma group_of_obj_set_other [simp]:
  "k' \<noteq> key \<Longrightarrow> group_of (obj_set key v obj) k' = group_of obj k'"
  by (simp add: group_of_def map_of_obj_set_other)

lemma obj_get_group_of:
  "key \<notin> set inherited_properties \<Longrightarrow>
   obj_get obj key = (case map_of obj key of Some v \<Rightarrow> Own v | None \<Rightarrow> Absent)"
  by (simp add: obj_get_def)

lemma getAllHighlights_ok:
  "faults w = [] \<Longrightarrow> getAllHighlights w = (Inr (or_highlights (local w HIGHLIGHTS)), w)"
  by (simp add: getAllHighlights_def io_defs backend_ok)

lemma slice0_Nil [simp]: "slice0 [] n = []"
  by (simp add: slice0_def)

lemma getHighlights_ok:
  "faults w = [] \<Longrightarrow>
   getHighlights i limit w =
     (Inr (slice0 (group_of (or_highlights (local w HIGHLIGHTS)) i) limit), w)"
  by (simp add: getHighlights_def io_defs getAllHighlights_ok obj_get_def group_of_def
      split: option.splits)

lemma or_workspaces_simps [simp]:
  "or_workspaces (Some (WorkspaceArr ws)) = ws" "or_workspaces None = []"
  by (simp_all add: or_workspaces_def)

lemma calls_append:
  "setActiveWorkspace_calls (cs @ ds) w =
     await (setActiveWorkspace_calls cs) (\<lambda>_. setActiveWorkspace_calls ds) w"
proof (induction cs arbitrary: w)
  case Nil
  show ?case by (simp add: io_defs)
next
  case (Cons c cs)
  obtain t i where c: "c = (t, i)" by (cases c)
  show ?case
    by (simp add: c await_def Cons.IH split: prod.splits sum.splits)
qed

lemma tick_ok: "tick t w = (Inr (), w\<lparr>clock := t\<rparr>)"
  by (simp add: tick_def)

lemma map_ws_id_activate: "map ws_id (map (activate i t) ws) = map ws_id ws"
  by (simp add: activate_def)

lemma setActiveWorkspace_list:
  assumes "faults w = []"
  shows "\<exists>w'. setActiveWorkspace i w = (Inr (), w') \<and> faults w' = [] \<and>
           or_workspaces (local w' WORKSPACES) =
             map (activate i (clock w)) (or_workspaces (local w WORKSPACES))"
  by (simp add: setActiveWorkspace_ok [OF assms] assms)

lemma calls_ok:
  "faults w = [] \<Longrightarrow>
   \<exists>w'. setActiveWorkspace_calls cs w = (Inr (), w') \<and> faults w' = [] \<and>
        map ws_id (or_workspaces (local w' WORKSPACES)) =
        map ws_id (or_workspaces (local w WORKSPACES))"
proof (induction cs arbitrary: w)
  case Nil
  then show ?case by (simp add: io_defs)
next
  case (Cons c cs)
  obtain t i where c: "c = (t, i)" by (cases c)
  let ?w1 = "w\<lparr>clock := t\<rparr>"
  have f1: "faults ?w1 = []" using Cons.prems by simp
  from setActiveWorkspace_list [OF f1, of i]
  obtain w2 where w2: "setActiveWorkspace i ?w1 = (Inr (), w2)" and f2: "faults w2 = []"
    and l2: "or_workspaces (local w2 WORKSPACES) =
               map (activate i (clock ?w1)) (or_workspaces (local ?w1 WORKSPACES))"
    by blast
  have ids2: "map ws_id (or_workspaces (local w2 WORKSPACES)) =
               map ws_id (or_workspaces (local w WORKSPACES))"
    by (simp add: l2 activate_def)
  from Cons.IH [OF f2] obtain w' where
    "setActiveWorkspace_calls cs w2 = (Inr (), w')" "faults w' = []"
    "map ws_id (or_workspaces (local w' WORKSPACES)) =
     map ws_id (or_workspaces (local w2 WORKSPACES))" by blast
  then show ?case
    using w2 ids2 by (simp add: c await_def tick_ok)
qed

lemma filter_key_le_one:
  "distinct (map f xs) \<Longrightarrow> length (filter (\<lambda>x. f x = a) xs) \<le> Suc 0"
  by (induction xs) (auto simp: filter_empty_conv image_iff)

lemma active_after_activate:
  "filter ws_isActive (map (activate i t) ws) =
   map (activate i t) (filter (\<lambda>x. Some (ws_id x) = i) ws)"
  by (induction ws) (auto simp: activate_def)

lemma or_simps [simp]:
  "or_tabSets (Some (TabSetArr ts)) = ts" "or_tabSets None = []"
  "or_highlights (Some (HighlightObj hs)) = hs" "or_highlights None = []"
  "or_settings (Some (SettingsObj p)) = p" "or_settings None = no_settings"
  "or_null None = None"
  by (simp_all add: or_tabSets_def or_highlights_def or_settings_def or_null_def)

lemma deleteWorkspace_ok:
  assumes "faults w = []"
  shows "\<exists>w'. deleteWorkspace i w = (Inr (), w') \<and> faults w' = [] \<and>
           or_workspaces (local w' WORKSPACES) =
             (if or_null (sync w ACTIVE_WORKSPACE) = Some i
              then map (activate None (clock w))
                     (filter (\<lambda>x. ws_id x \<noteq> i) (or_workspaces (local w WORKSPACES)))
              else filter (\<lambda>x. ws_id x \<noteq> i) (or_workspaces (local w WORKSPACES))) \<and>
           or_tabSets (local w' TAB_SETS) =
             filter (\<lambda>ts. ts_workspaceId ts \<noteq> i) (or_tabSets (local w TAB_SETS)) \<and>
           or_highlights (local w' HIGHLIGHTS) =
             without_group i (or_highlights (local w HIGHLIGHTS)) \<and>
           sync w' ACTIVE_WORKSPACE =
             (if or_null (sync w ACTIVE_WORKSPACE) = Some i then None
              else sync w ACTIVE_WORKSPACE) \<and>
           sync w' SETTINGS = sync w SETTINGS \<and> clock w' = clock w"
  using assms
  by (simp add: deleteWorkspace_def await_def try_catch_def resolve_def
      listWorkspaces_ok local_set_ok getActiveWorkspace_ok setActiveWorkspace_ok
      getAllTabSets_ok getAllHighlights_ok without_group_def Let_def)

lemma fold_without_keys:
  "i \<notin> fst ` set acc \<Longrightarrow>
   i \<notin> fst ` set (fold (\<lambda>(workspaceId, highlightList) acc.
             if workspaceId \<noteq> i then obj_set workspaceId highlightList acc else acc)
          hs acc)"
proof (induction hs arbitrary: acc)
  case Nil
  then show ?case by simp
next
  case (Cons h hs)
  obtain k v where h: "h = (k, v)" by (cases h)
  show ?case
  proof (cases "k = i")
    case True
    with Cons h show ?thesis by simp
  next
    case False
    have "i \<notin> fst ` set (obj_set k v acc)"
      using Cons.prems False keys_obj_set [of k v acc] by auto
    from Cons.IH [OF this] show ?thesis using False h by simp
  qed
qed

lemma group_of_without_group: "group_of (without_group i hs) i = []"
proof -
  have "i \<notin> fst ` set (without_group i hs)"
    unfolding without_group_def by (rule fold_without_keys) simp
  then have "map_of (without_group i hs) i = None"
    by (simp add: map_of_eq_None_iff)
  then show ?thesis by (simp add: group_of_def)
qed

lemma find_filter_neq: "find (\<lambda>x. f x = i) (filter (\<lambda>x. f x \<noteq> i) xs) = None"
  by (induction xs) auto

lemma with_highlight_first:
  assumes "i \<notin> set inherited_properties"
  shows "obj_get (if obj_get al i = Absent then obj_set i [] al else al) i
         = Own (group_of (if obj_get al i = Absent then obj_set i [] al else al) i)"
proof (cases "map_of al i")
  case None
  then have "obj_get al i = Absent" using assms by (simp add: obj_get_def)
  moreover have "map_of (obj_set i [] al) i = Some []"
    using proto_inherited [OF assms] by (simp add: map_of_obj_set)
  ultimately show ?thesis by (simp add: obj_get_def group_of_def)
next
  case (Some hs)
  then show ?thesis by (simp add: obj_get_def group_of_def)
qed

lemma unshift_ok:
  assumes "i \<notin> set inherited_properties"
  shows "unshift (if obj_get al i = Absent then obj_set i [] al else al) i h w =
         (Inr (obj_set i (h # group_of (if obj_get al i = Absent then obj_set i [] al else al) i)
                 (if obj_get al i = Absent then obj_set i [] al else al)), w)"
  unfolding unshift_def with_highlight_first [OF assms] by (simp add: resolve_def)

lemma appendHighlight_ok:
  assumes "faults w = []" and "i \<notin> set inherited_properties"
  shows "appendHighlight i h w =
     (Inr (), w\<lparr>local := (local w)(HIGHLIGHTS \<mapsto> HighlightObj
        (with_highlight (highlight_cap (spread defaultSettings (or_settings (sync w SETTINGS))))
           i h (or_highlights (local w HIGHLIGHTS))))\<rparr>)"
  using assms(1)
  by (simp add: appendHighlight_def await_def try_catch_def resolve_def
      getAllHighlights_ok getSettings_ok local_set_ok with_highlight_def highlight_cap_def Let_def
      unshift_ok [OF assms(2)])

lemma appendHighlight_inherited:
  assumes "faults w = []" and "obj_get (or_highlights (local w HIGHLIGHTS)) i = Inherited"
  shows "appendHighlight i h w =
     (Inl (Error (''Failed to append highlight: '' @
        error_text (TypeError ''allHighlights[workspaceId].unshift is not a function''))), w)"
  using assms
  by (simp add: appendHighlight_def await_def try_catch_def throw_def
      getAllHighlights_ok unshift_def Let_def)

lemma group_of_with_highlight:
  assumes "i \<notin> set inherited_properties"
  shows "group_of (with_highlight cap i h al) i =
     (if int (length (h # group_of al i)) > cap then slice0 (h # group_of al i) cap
      else h # group_of al i)"
proof -
  note p = proto_inherited [OF assms]
  have g1: "group_of (if obj_get al i = Absent then obj_set i [] al else al) i = group_of al i"
  proof (cases "map_of al i")
    case None
    then have "group_of al i = []" by (simp add: group_of_def)
    then show ?thesis using p by (simp add: group_of_obj_set)
  next
    case (Some hs)
    then show ?thesis by (simp add: obj_get_def)
  qed
  show ?thesis
    using p by (simp add: with_highlight_def Let_def group_of_obj_set g1)
qed

lemma group_of_with_highlight_other:
  "j \<noteq> i \<Longrightarrow> group_of (with_highlight cap i h al) j = group_of al j"
  by (simp add: with_highlight_def Let_def)

lemma group_of_with_highlight_pos:
  "i \<notin> set inherited_properties \<Longrightarrow> 0 < K \<Longrightarrow>
   group_of (with_highlight (int K) i h al) i = take K (h # group_of al i)"
  by (simp add: group_of_with_highlight slice0_def)

lemma take_append_take: "take n (xs @ take n ys) = take n (xs @ ys)"
  by simp

lemma appendHighlight_calls_ok:
  assumes "0 < K" and "i \<notin> set inherited_properties"
  shows "faults w = [] \<Longrightarrow>
   highlight_cap (spread defaultSettings (or_settings (sync w SETTINGS))) = int K \<Longrightarrow>
   \<exists>w'. appendHighlight_calls i hs w = (Inr (), w') \<and> faults w' = [] \<and>
        group_of (or_highlights (local w' HIGHLIGHTS)) i =
          (if hs = [] then group_of (or_highlights (local w HIGHLIGHTS)) i
           else take K (rev hs @ group_of (or_highlights (local w HIGHLIGHTS)) i))"
proof (induction hs arbitrary: w)
  case Nil
  then show ?case by (simp add: resolve_def)
next
  case (Cons h hs)
  let ?g0 = "group_of (or_highlights (local w HIGHLIGHTS)) i"
  let ?w1 = "w\<lparr>local := (local w)(HIGHLIGHTS \<mapsto> HighlightObj
        (with_highlight (int K) i h (or_highlights (local w HIGHLIGHTS))))\<rparr>"
  have step: "appendHighlight i h w = (Inr (), ?w1)"
    using appendHighlight_ok [OF Cons.prems(1) assms(2), of h] Cons.prems(2) by simp
  have f1: "faults ?w1 = []" using Cons.prems(1) by simp
  have c1: "highlight_cap (spread defaultSettings (or_settings (sync ?w1 SETTINGS))) = int K"
    using Cons.prems(2) by simp
  have g1: "group_of (or_highlights (local ?w1 HIGHLIGHTS)) i = take K (h # ?g0)"
    using assms by (simp add: group_of_with_highlight_pos)
  from Cons.IH [OF f1 c1] obtain w' where
    run: "appendHighlight_calls i hs ?w1 = (Inr (), w')" and f': "faults w' = []"
    and g': "group_of (or_highlights (local w' HIGHLIGHTS)) i =
          (if hs = [] then group_of (or_highlights (local ?w1 HIGHLIGHTS)) i
           else take K (rev hs @ group_of (or_highlights (local ?w1 HIGHLIGHTS)) i))"
    by blast
  have "group_of (or_highlights (local w' HIGHLIGHTS)) i = take K (rev (h # hs) @ ?g0)"
  proof (cases "hs = []")
    case True
    then show ?thesis using g' g1 by simp
  next
    case False
    then have "group_of (or_highlights (local w' HIGHLIGHTS)) i =
               take K (rev hs @ take K (h # ?g0))"
      using g' g1 by simp
    also have "\<dots> = take K (rev hs @ (h # ?g0))" by (rule take_append_take)
    finally show ?thesis by simp
  qed
  then show ?case using step run f' by (simp add: await_def)
qed

lemma take_rev_drop: "length hs = K + M \<Longrightarrow> take K (rev hs) = rev (drop M hs)"
  by (simp add: take_rev)

lemma findIndex_ge: "- 1 \<le> findIndex P xs"
  by (induction xs) (auto simp: Let_def)

lemma findIndex_neg_iff: "findIndex P xs < 0 \<longleftrightarrow> (\<forall>x \<in> set xs. \<not> P x)"
  by (induction xs) (auto simp: Let_def)

lemma findIndex_find_None: "findIndex P xs < 0 \<longleftrightarrow> find P xs = None"
  by (auto simp: findIndex_neg_iff find_None_iff)

lemma find_update_findIndex:
  "0 \<le> findIndex P xs \<Longrightarrow> P y \<Longrightarrow> find P (xs[nat (findIndex P xs) := y]) = Some y"
proof (induction xs)
  case Nil
  then show ?case by simp
next
  case (Cons x xs)
  show ?case
  proof (cases "P x")
    case True
    then show ?thesis using Cons.prems by simp
  next
    case False
    then have nn: "0 \<le> findIndex P xs"
      using Cons.prems(1) by (simp add: Let_def split: if_splits)
    then have "nat (findIndex P xs + 1) = Suc (nat (findIndex P xs))" by simp
    then show ?thesis
      using False nn Cons.IH [OF nn Cons.prems(2)] by (simp add: Let_def)
  qed
qed

lemma find_append_new:
  "findIndex P xs < 0 \<Longrightarrow> P y \<Longrightarrow> find P (xs @ [y]) = Some y"
  by (induction xs) (auto simp: Let_def split: if_splits)

lemma find_upsert:
  "find (\<lambda>x. ws_id x = ws_id W) (upsert now W ws) =
     Some (if find (\<lambda>x. ws_id x = ws_id W) ws = None then W else W\<lparr>ws_updatedAt := now\<rparr>)"
proof (cases "0 \<le> findIndex (\<lambda>x. ws_id x = ws_id W) ws")
  case True
  then have "find (\<lambda>x. ws_id x = ws_id W) ws \<noteq> None"
    using findIndex_find_None [of "\<lambda>x. ws_id x = ws_id W" ws] by auto
  moreover have "find (\<lambda>x. ws_id x = ws_id W)
      (ws[nat (findIndex (\<lambda>x. ws_id x = ws_id W) ws) := W\<lparr>ws_updatedAt := now\<rparr>])
      = Some (W\<lparr>ws_updatedAt := now\<rparr>)"
    by (rule find_update_findIndex [OF True]) simp
  ultimately show ?thesis using True by (auto simp: upsert_def)
next
  case False
  then have neg: "findIndex (\<lambda>x. ws_id x = ws_id W) ws < 0" by simp
  then have "find (\<lambda>x. ws_id x = ws_id W) ws = None"
    by (simp add: findIndex_find_None)
  moreover have "find (\<lambda>x. ws_id x = ws_id W) (ws @ [W]) = Some W"
    by (rule find_append_new [OF neg]) simp
  ultimately show ?thesis using False by (simp add: upsert_def)
qed

lemma spread_spread: "spread (spread s a) b = spread s (spread_partial a b)"
  by (simp add: spread_def spread_partial_def split: option.splits)

lemma spread_default_object:
  "spread defaultSettings (settings_object (spread (spread defaultSettings p) q)) =
   spread (spread defaultSettings p) q"
  by (simp add: spread_def settings_object_def defaultSettings_def split: option.splits)

lemma spread_partial_assoc:
  "spread_partial (spread_partial a b) c = spread_partial a (spread_partial b c)"
  by (simp add: spread_partial_def split: option.splits)

lemma spread_idem: "spread (spread s b) b = spread s b"
  by (simp add: spread_def split: option.splits)

lemma saveSettings_effective:
  assumes "faults w = []"
  shows "\<exists>w'. saveSettings p w = (Inr (), w') \<and> faults w' = [] \<and>
           spread defaultSettings (or_settings (sync w' SETTINGS)) =
             spread (spread defaultSettings (or_settings (sync w SETTINGS))) p \<and>
           w' = w\<lparr>sync := (sync w)(SETTINGS \<mapsto> SettingsObj (settings_object
                  (spread (spread defaultSettings (or_settings (sync w SETTINGS))) p)))\<rparr>"
  using assms by (simp add: saveSettings_ok spread_default_object)

lemma map_add_self: "m ++ m = m"
  by (rule ext) (simp add: map_add_def split: option.splits)



section \<open>Rejected backend calls\<close>

lemma quiet_clean:
  assumes "quiet P m"
  shows "clean P m"
  unfolding clean_def
proof (intro allI impI)
  fix w x w'
  assume "m w = (Inr x, w')"
  then have "snd (m w) = w'" by simp
  with assms show "filter P (rejected w') = filter P (rejected w)"
    unfolding quiet_def by blast
qed

lemma clean_resolve: "clean P (resolve x)"
  by (simp add: clean_def resolve_def)

lemma quiet_resolve: "quiet P (resolve x)"
  by (simp add: quiet_def resolve_def)

lemma quiet_Date_now: "quiet P Date_now"
  by (simp add: quiet_def Date_now_def)

lemma clean_await:
  assumes "clean P m" and "\<And>x. clean P (f x)"
  shows "clean P (await m f)"
  unfolding clean_def
proof (intro allI impI)
  fix w x w'
  assume run: "await m f w = (Inr x, w')"
  obtain r w1 where m: "m w = (r, w1)" by (cases "m w")
  show "filter P (rejected w') = filter P (rejected w)"
  proof (cases r)
    case (Inl e)
    with run m show ?thesis by (simp add: await_def)
  next
    case (Inr y)
    with run m have "f y w1 = (Inr x, w')" by (simp add: await_def)
    with assms(2) have "filter P (rejected w') = filter P (rejected w1)"
      unfolding clean_def by blast
    moreover from assms(1) m Inr have "filter P (rejected w1) = filter P (rejected w)"
      unfolding clean_def by blast
    ultimately show ?thesis by simp
  qed
qed

lemma quiet_await:
  assumes "quiet P m" and "\<And>x. quiet P (f x)"
  shows "quiet P (await m f)"
  unfolding quiet_def
proof
  fix w
  obtain r w1 where m: "m w = (r, w1)" by (cases "m w")
  from assms(1) m have q1: "filter P (rejected w1) = filter P (rejected w)"
    unfolding quiet_def by (metis snd_conv)
  show "filter P (rejected (snd (await m f w))) = filter P (rejected w)"
  proof (cases r)
    case (Inl e)
    with m q1 show ?thesis by (simp add: await_def)
  next
    case (Inr y)
    from assms(2) have "filter P (rejected (snd (f y w1))) = filter P (rejected w1)"
      unfolding quiet_def by blast
    with m Inr q1 show ?thesis by (simp add: await_def)
  qed
qed

lemma quiet_try_catch:
  assumes "quiet P m" and "\<And>e. quiet P (h e)"
  shows "quiet P (try_catch m h)"
  unfolding quiet_def
proof
  fix w
  obtain r w1 where m: "m w = (r, w1)" by (cases "m w")
  from assms(1) m have q1: "filter P (rejected w1) = filter P (rejected w)"
    unfolding quiet_def by (metis snd_conv)
  show "filter P (rejected (snd (try_catch m h w))) = filter P (rejected w)"
  proof (cases r)
    case (Inl e)
    from assms(2) have "filter P (rejected (snd (h e w1))) = filter P (rejected w1)"
      unfolding quiet_def by blast
    with m Inl q1 show ?thesis by (simp add: try_catch_def)
  next
    case (Inr y)
    with m q1 show ?thesis by (simp add: try_catch_def)
  qed
qed

lemma clean_try_throw:
  assumes "clean P m"
  shows "clean P (try_catch m (\<lambda>e. throw (msg e)))"
  using assms
  by (auto simp: clean_def try_catch_def throw_def split: prod.splits sum.splits)

lemma clean_promise_all2:
  assumes "clean P a" and "clean P b"
  shows "clean P (promise_all2 a b)"
  unfolding clean_def
proof (intro allI impI)
  fix w x w'
  assume run: "promise_all2 a b w = (Inr x, w')"
  obtain ra w1 where a: "a w = (ra, w1)" by (cases "a w")
  obtain rb w2 where b: "b w1 = (rb, w2)" by (cases "b w1")
  from run a b obtain xa xb where ra: "ra = Inr xa" and rb: "rb = Inr xb" and w': "w' = w2"
    by (auto simp: promise_all2_def split: sum.splits)
  from assms(1) a ra have "filter P (rejected w1) = filter P (rejected w)"
    unfolding clean_def by blast
  moreover from assms(2) b rb have "filter P (rejected w2) = filter P (rejected w1)"
    unfolding clean_def by blast
  ultimately show "filter P (rejected w') = filter P (rejected w)" by (simp add: w')
qed

lemma clean_backend_call:
  assumes "\<And>w. rejected (snd (act w)) = rejected w"
  shows "clean P (backend_call k act)"
  unfolding clean_def
proof (intro allI impI)
  fix w x w'
  assume run: "backend_call k act w = (Inr x, w')"
  show "filter P (rejected w') = filter P (rejected w)"
  proof (cases "faults w")
    case Nil
    with run have "act w = (x, w')" by (simp add: backend_call_def split: prod.splits)
    with assms [of w] show ?thesis by simp
  next
    case (Cons f rest)
    show ?thesis
    proof (cases f)
      case None
      with run Cons have "act (w\<lparr>faults := rest\<rparr>) = (x, w')"
        by (simp add: backend_call_def split: prod.splits)
      with assms [of "w\<lparr>faults := rest\<rparr>"] show ?thesis by simp
    next
      case (Some m)
      with run Cons show ?thesis by (simp add: backend_call_def)
    qed
  qed
qed

lemma quiet_backend_get:
  assumes "\<And>w. rejected (snd (act w)) = rejected w"
  shows "quiet (\<lambda>r. fst r \<noteq> MGet) (backend_call MGet act)"
  unfolding quiet_def
proof
  fix w
  show "filter (\<lambda>r. fst r \<noteq> MGet) (rejected (snd (backend_call MGet act w)))
        = filter (\<lambda>r. fst r \<noteq> MGet) (rejected w)"
  proof (cases "faults w")
    case Nil
    obtain x w1 where a: "act w = (x, w1)" by (cases "act w")
    with assms [of w] have "rejected w1 = rejected w" by simp
    with a Nil show ?thesis by (simp add: backend_call_def)
  next
    case (Cons f rest)
    obtain x w1 where a: "act (w\<lparr>faults := rest\<rparr>) = (x, w1)"
      by (cases "act (w\<lparr>faults := rest\<rparr>)")
    with assms [of "w\<lparr>faults := rest\<rparr>"] have "rejected w1 = rejected w" by simp
    with a Cons show ?thesis
      by (cases f) (simp_all add: backend_call_def)
  qed
qed

lemma clean_prims:
  "clean P (sync_get keys)" "clean P sync_get_all" "clean P (sync_set items)"
  "clean P (sync_remove keys)" "clean P sync_clear"
  "clean P (local_get keys)" "clean P local_get_all" "clean P (local_set items)"
  "clean P (local_remove keys)" "clean P local_clear"
  by (simp_all add: sync_get_def sync_get_all_def sync_set_def sync_remove_def sync_clear_def
      local_get_def local_get_all_def local_set_def local_remove_def local_clear_def
      clean_backend_call)

lemma quiet_gets:
  "quiet (\<lambda>r. fst r \<noteq> MGet) (sync_get keys)" "quiet (\<lambda>r. fst r \<noteq> MGet) sync_get_all"
  "quiet (\<lambda>r. fst r \<noteq> MGet) (local_get keys)" "quiet (\<lambda>r. fst r \<noteq> MGet) local_get_all"
  by (simp_all add: sync_get_def sync_get_all_def local_get_def local_get_all_def
      quiet_backend_get)

lemma clean_if: "clean P a \<Longrightarrow> clean P b \<Longrightarrow> clean P (if c then a else b)"
  by simp

lemma quiet_reads:
  "quiet (\<lambda>r. fst r \<noteq> MGet) listWorkspaces"
  "quiet (\<lambda>r. fst r \<noteq> MGet) getActiveWorkspace"
  "quiet (\<lambda>r. fst r \<noteq> MGet) getSettings"
  "quiet (\<lambda>r. fst r \<noteq> MGet) getAllTabSets"
  "quiet (\<lambda>r. fst r \<noteq> MGet) getAllHighlights"
  unfolding listWorkspaces_def getActiveWorkspace_def getSettings_def getAllTabSets_def
    getAllHighlights_def
  by (intro quiet_try_catch quiet_await quiet_resolve quiet_gets)+

lemma clean_reads:
  "clean (\<lambda>r. fst r \<noteq> MGet) listWorkspaces"
  "clean (\<lambda>r. fst r \<noteq> MGet) getActiveWorkspace"
  "clean (\<lambda>r. fst r \<noteq> MGet) getSettings"
  "clean P getAllTabSets"
  "clean P getAllHighlights"
  "clean P Date_now"
proof -
  show "clean (\<lambda>r. fst r \<noteq> MGet) listWorkspaces"
    "clean (\<lambda>r. fst r \<noteq> MGet) getActiveWorkspace"
    "clean (\<lambda>r. fst r \<noteq> MGet) getSettings"
    by (rule quiet_clean, rule quiet_reads)+
  show "clean P getAllTabSets" "clean P getAllHighlights"
    unfolding getAllTabSets_def getAllHighlights_def
    by (intro clean_await clean_resolve clean_prims)+
  show "clean P Date_now"
    by (rule quiet_clean) (rule quiet_Date_now)
qed

lemma clean_throw: "clean P (throw e)"
  by (simp add: clean_def throw_def)

lemma clean_unshift: "clean P (unshift al k h)"
  by (simp add: unshift_def clean_resolve clean_throw split: property.splits)

lemmas clean_intros = clean_await clean_resolve clean_prims clean_reads clean_if
  clean_promise_all2 clean_unshift

lemma rejects_with_prefix:
  assumes "clean P m"
    and "filter P (rejected (snd (try_catch m (\<lambda>e. throw (Error (p @ error_text e))) w)))
          \<noteq> filter P (rejected w)"
  shows "\<exists>c. fst (try_catch m (\<lambda>e. throw (Error (p @ error_text e))) w) = Inl (Error (p @ error_text c))"
proof -
  obtain r w1 where m: "m w = (r, w1)" by (cases "m w")
  show ?thesis
  proof (cases r)
    case (Inl e)
    with m have "fst (try_catch m (\<lambda>e. throw (Error (p @ error_text e))) w) = Inl (Error (p @ error_text e))"
      by (simp add: try_catch_def throw_def)
    then show ?thesis by blast
  next
    case (Inr x)
    with assms(1) m have "filter P (rejected w1) = filter P (rejected w)"
      unfolding clean_def by blast
    with assms(2) m Inr show ?thesis by (simp add: try_catch_def)
  qed
qed

lemma saveWorkspace_loud:
  "rejected_writes (snd (saveWorkspace W w)) \<noteq> rejected_writes w \<Longrightarrow>
   \<exists>c. fst (saveWorkspace W w) = Inl (Error (''Failed to save workspace: '' @ error_text c))"
  unfolding saveWorkspace_def rejected_writes_def Let_def
  by (erule rejects_with_prefix [rotated]) (intro clean_intros)

lemma setActiveWorkspace_clean: "clean (\<lambda>r. fst r \<noteq> MGet) (setActiveWorkspace i)"
  unfolding setActiveWorkspace_def Let_def
  by (cases i) (auto intro!: clean_try_throw clean_intros)

lemma setActiveWorkspace_loud:
  "rejected_writes (snd (setActiveWorkspace i w)) \<noteq> rejected_writes w \<Longrightarrow>
   \<exists>c. fst (setActiveWorkspace i w) = Inl (Error (''Failed to set active workspace: '' @ error_text c))"
  unfolding setActiveWorkspace_def rejected_writes_def Let_def
  by (erule rejects_with_prefix [rotated]) (cases i; simp; intro clean_intros)

lemma deleteWorkspace_loud:
  "rejected_writes (snd (deleteWorkspace i w)) \<noteq> rejected_writes w \<Longrightarrow>
   \<exists>c. fst (deleteWorkspace i w) = Inl (Error (''Failed to delete workspace: '' @ error_text c))"
  unfolding deleteWorkspace_def rejected_writes_def Let_def
  by (erule rejects_with_prefix [rotated]) (intro clean_intros setActiveWorkspace_clean)

lemma appendHighlight_loud:
  "rejected_writes (snd (appendHighlight i h w)) \<noteq> rejected_writes w \<Longrightarrow>
   \<exists>c. fst (appendHighlight i h w) = Inl (Error (''Failed to append highlight: '' @ error_text c))"
  unfolding appendHighlight_def rejected_writes_def Let_def
  by (erule rejects_with_prefix [rotated]) (intro clean_intros)

lemma saveSettings_loud:
  "rejected_writes (snd (saveSettings p w)) \<noteq> rejected_writes w \<Longrightarrow>
   \<exists>c. fst (saveSettings p w) = Inl (Error (''Failed to save settings: '' @ error_text c))"
  unfolding saveSettings_def rejected_writes_def Let_def
  by (erule rejects_with_prefix [rotated]) (intro clean_intros)

lemma filter_True: "filter (\<lambda>_. True) xs = xs"
  by simp

lemma saveTabSet_strict:
  "rejected (snd (saveTabSet rnd day i tabs name w)) \<noteq> rejected w \<Longrightarrow>
   \<exists>c. fst (saveTabSet rnd day i tabs name w) = Inl (Error (''Failed to save tab set: '' @ error_text c))"
  unfolding saveTabSet_def Let_def
  by (rule rejects_with_prefix [where P = "\<lambda>_. True"]) (intro clean_intros, simp)

lemma clearAllData_strict:
  "rejected (snd (clearAllData w)) \<noteq> rejected w \<Longrightarrow>
   \<exists>c. fst (clearAllData w) = Inl (Error (''Failed to clear all data: '' @ error_text c))"
  unfolding clearAllData_def
  by (rule rejects_with_prefix [where P = "\<lambda>_. True"]) (intro clean_intros, simp)

lemma exportData_strict:
  "rejected (snd (exportData w)) \<noteq> rejected w \<Longrightarrow>
   \<exists>c. fst (exportData w) = Inl (Error (''Failed to export data: '' @ error_text c))"
  unfolding exportData_def
  by (rule rejects_with_prefix [where P = "\<lambda>_. True"])
     (auto intro!: clean_intros simp: split_def)

lemma importData_strict:
  "rejected (snd (importData d w)) \<noteq> rejected w \<Longrightarrow>
   \<exists>c. fst (importData d w) = Inl (Error (''Failed to import data: '' @ error_text c))"
  unfolding importData_def
  by (rule rejects_with_prefix [where P = "\<lambda>_. True"]) (intro clean_intros, simp)

lemma reads_degrade:
  assumes "faults r = Some m # rest"
  shows "fst (listWorkspaces r) = Inr []" "fst (getWorkspace i r) = Inr None"
    "fst (getHighlights i limit r) = Inr []" "fst (getSettings r) = Inr defaultSettings"
  using assms
  by (simp_all add: listWorkspaces_def getWorkspace_def getHighlights_def getSettings_def
      getAllHighlights_def local_get_def sync_get_def backend_call_def io_defs)

lemma appendHighlight_read_rejected:
  assumes "faults w = Some m # rest"
  shows "fst (appendHighlight i h w) = Inl (Error (''Failed to append highlight: '' @ error_text (Error m)))"
  using assms
  by (simp add: appendHighlight_def getAllHighlights_def local_get_def backend_call_def io_defs)

lemmas prim_defs = sync_get_def sync_get_all_def sync_set_def sync_remove_def sync_clear_def
  local_get_def local_get_all_def local_set_def local_remove_def local_clear_def backend_call_def

lemmas read_defs = listWorkspaces_def getWorkspace_def getActiveWorkspace_def getSettings_def
  getAllTabSets_def getAllHighlights_def getHighlights_def

text \<open>
  What the operations do on a rejected call. A rejected read makes the read operations
  degrade. A write operation rejects with its own message whenever one of its backend
  writes (\<^verbatim>\<open>set\<close>, \<^verbatim>\<open>remove\<close>, \<^verbatim>\<open>clear\<close>) is rejected, for every schedule of backend
  outcomes; \<^verbatim>\<open>saveTabSet\<close>, \<^verbatim>\<open>clearAllData\<close>, \<^verbatim>\<open>exportData\<close> and \<^verbatim>\<open>importData\<close>
  whenever any of their backend calls is, and \<^verbatim>\<open>appendHighlight\<close> also when its first
  read is.
\<close>

lemma rejected_calls_propagate:
  "(faults r = Some m # rest \<longrightarrow>
      fst (listWorkspaces r) = Inr [] \<and> fst (getWorkspace i r) = Inr None \<and>
      fst (getHighlights i limit r) = Inr [] \<and> fst (getSettings r) = Inr defaultSettings \<and>
      fst (appendHighlight i h r) = Inl (Error (''Failed to append highlight: '' @ error_text (Error m)))) \<and>
   (rejected_writes (snd (saveWorkspace W w)) \<noteq> rejected_writes w \<longrightarrow>
      (\<exists>c. fst (saveWorkspace W w) = Inl (Error (''Failed to save workspace: '' @ error_text c)))) \<and>
   (rejected_writes (snd (deleteWorkspace i w)) \<noteq> rejected_writes w \<longrightarrow>
      (\<exists>c. fst (deleteWorkspace i w) = Inl (Error (''Failed to delete workspace: '' @ error_text c)))) \<and>
   (rejected_writes (snd (setActiveWorkspace a w)) \<noteq> rejected_writes w \<longrightarrow>
      (\<exists>c. fst (setActiveWorkspace a w)
             = Inl (Error (''Failed to set active workspace: '' @ error_text c)))) \<and>
   (rejected_writes (snd (appendHighlight i h w)) \<noteq> rejected_writes w \<longrightarrow>
      (\<exists>c. fst (appendHighlight i h w) = Inl (Error (''Failed to append highlight: '' @ error_text c)))) \<and>
   (rejected_writes (snd (saveSettings p w)) \<noteq> rejected_writes w \<longrightarrow>
      (\<exists>c. fst (saveSettings p w) = Inl (Error (''Failed to save settings: '' @ error_text c)))) \<and>
   (rejected (snd (saveTabSet rnd day i tabs name w)) \<noteq> rejected w \<longrightarrow>
      (\<exists>c. fst (saveTabSet rnd day i tabs name w)
             = Inl (Error (''Failed to save tab set: '' @ error_text c)))) \<and>
   (rejected (snd (clearAllData w)) \<noteq> rejected w \<longrightarrow>
      (\<exists>c. fst (clearAllData w) = Inl (Error (''Failed to clear all data: '' @ error_text c)))) \<and>
   (rejected (snd (exportData w)) \<noteq> rejected w \<longrightarrow>
      (\<exists>c. fst (exportData w) = Inl (Error (''Failed to export data: '' @ error_text c)))) \<and>
   (rejected (snd (importData d w)) \<noteq> rejected w \<longrightarrow>
      (\<exists>c. fst (importData d w) = Inl (Error (''Failed to import data: '' @ error_text c))))"
proof (intro conjI impI)
  assume f: "faults r = Some m # rest"
  show "fst (listWorkspaces r) = Inr []" "fst (getWorkspace i r) = Inr None"
    "fst (getHighlights i limit r) = Inr []" "fst (getSettings r) = Inr defaultSettings"
    by (rule reads_degrade [OF f])+
  show "fst (appendHighlight i h r) = Inl (Error (''Failed to append highlight: '' @ error_text (Error m)))"
    by (rule appendHighlight_read_rejected [OF f])
next
  assume "rejected_writes (snd (saveWorkspace W w)) \<noteq> rejected_writes w"
  then show "\<exists>c. fst (saveWorkspace W w) = Inl (Error (''Failed to save workspace: '' @ error_text c))"
    by (rule saveWorkspace_loud)
next
  assume "rejected_writes (snd (deleteWorkspace i w)) \<noteq> rejected_writes w"
  then show "\<exists>c. fst (deleteWorkspace i w) = Inl (Error (''Failed to delete workspace: '' @ error_text c))"
    by (rule deleteWorkspace_loud)
next
  assume "rejected_writes (snd (setActiveWorkspace a w)) \<noteq> rejected_writes w"
  then show "\<exists>c. fst (setActiveWorkspace a w)
             = Inl (Error (''Failed to set active workspace: '' @ error_text c))"
    by (rule setActiveWorkspace_loud)
next
  assume "rejected_writes (snd (appendHighlight i h w)) \<noteq> rejected_writes w"
  then show "\<exists>c. fst (appendHighlight i h w) = Inl (Error (''Failed to append highlight: '' @ error_text c))"
    by (rule appendHighlight_loud)
next
  assume "rejected_writes (snd (saveSettings p w)) \<noteq> rejected_writes w"
  then show "\<exists>c. fst (saveSettings p w) = Inl (Error (''Failed to save settings: '' @ error_text c))"
    by (rule saveSettings_loud)
next
  assume "rejected (snd (saveTabSet rnd day i tabs name w)) \<noteq> rejected w"
  then show "\<exists>c. fst (saveTabSet rnd day i tabs name w)
             = Inl (Error (''Failed to save tab set: '' @ error_text c))"
    by (rule saveTabSet_strict)
next
  assume "rejected (snd (clearAllData w)) \<noteq> rejected w"
  then show "\<exists>c. fst (clearAllData w) = Inl (Error (''Failed to clear all data: '' @ error_text c))"
    by (rule clearAllData_strict)
next
  assume "rejected (snd (exportData w)) \<noteq> rejected w"
  then show "\<exists>c. fst (exportData w) = Inl (Error (''Failed to export data: '' @ error_text c))"
    by (rule exportData_strict)
next
  assume "rejected (snd (importData d w)) \<noteq> rejected w"
  then show "\<exists>c. fst (importData d w) = Inl (Error (''Failed to import data: '' @ error_text c))"
    by (rule importData_strict)
qed

lemma rejected_calls_propagate_example:
  "faults ex_unavailable = Some ''backend unavailable'' # [] \<and>
   fst (listWorkspaces ex_unavailable) = Inr [] \<and>
   fst (getWorkspace ''a'' ex_unavailable) = Inr None \<and>
   fst (getHighlights ''a'' 50 ex_unavailable) = Inr [] \<and>
   fst (getSettings ex_unavailable) = Inr defaultSettings \<and>
   fst (appendHighlight ''a'' exH3 ex_unavailable)
     = Inl (Error (''Failed to append highlight: '' @ error_text (Error ''backend unavailable''))) \<and>
   rejected_writes (snd (saveWorkspace exB ex_quota)) \<noteq> rejected_writes ex_quota \<and>
   (\<exists>c. fst (saveWorkspace exB ex_quota) = Inl (Error (''Failed to save workspace: '' @ error_text c))) \<and>
   rejected_writes (snd (deleteWorkspace ''a'' ex_quota)) \<noteq> rejected_writes ex_quota \<and>
   (\<exists>c. fst (deleteWorkspace ''a'' ex_quota)
          = Inl (Error (''Failed to delete workspace: '' @ error_text c))) \<and>
   rejected_writes (snd (setActiveWorkspace (Some ''b'') ex_quota)) \<noteq> rejected_writes ex_quota \<and>
   (\<exists>c. fst (setActiveWorkspace (Some ''b'') ex_quota)
          = Inl (Error (''Failed to set active workspace: '' @ error_text c))) \<and>
   rejected_writes (snd (appendHighlight ''a'' exH3 ex_quota)) \<noteq> rejected_writes ex_quota \<and>
   (\<exists>c. fst (appendHighlight ''a'' exH3 ex_quota)
          = Inl (Error (''Failed to append highlight: '' @ error_text c))) \<and>
   rejected_writes (snd (saveSettings (no_settings\<lparr>p_theme := Some Dark\<rparr>) ex_quota))
     \<noteq> rejected_writes ex_quota \<and>
   (\<exists>c. fst (saveSettings (no_settings\<lparr>p_theme := Some Dark\<rparr>) ex_quota)
          = Inl (Error (''Failed to save settings: '' @ error_text c))) \<and>
   rejected (snd (saveTabSet ''k3j9x0q1z'' ''11/3/2026'' ''a'' [exTab] (Some ''Set2'') ex_quota))
     \<noteq> rejected ex_quota \<and>
   (\<exists>c. fst (saveTabSet ''k3j9x0q1z'' ''11/3/2026'' ''a'' [exTab] (Some ''Set2'') ex_quota)
          = Inl (Error (''Failed to save tab set: '' @ error_text c))) \<and>
   rejected (snd (clearAllData ex_quota)) \<noteq> rejected ex_quota \<and>
   (\<exists>c. fst (clearAllData ex_quota) = Inl (Error (''Failed to clear all data: '' @ error_text c))) \<and>
   rejected (snd (exportData ex_quota)) \<noteq> rejected ex_quota \<and>
   (\<exists>c. fst (exportData ex_quota) = Inl (Error (''Failed to export data: '' @ error_text c))) \<and>
   rejected (snd (importData ex_export ex_quota)) \<noteq> rejected ex_quota \<and>
   (\<exists>c. fst (importData ex_export ex_quota) = Inl (Error (''Failed to import data: '' @ error_text c)))"
proof -
  have r: "faults ex_unavailable = Some ''backend unavailable'' # []"
    by (simp add: ex_unavailable_def)
  have q: "faults ex_quota = [None, Some ''quota exceeded'', Some ''quota exceeded'']"
    "rejected ex_quota = []"
    by (simp_all add: ex_quota_def ex_store_def)
  have h1: "rejected_writes (snd (saveWorkspace exB ex_quota)) \<noteq> rejected_writes ex_quota"
    by (simp add: saveWorkspace_def read_defs io_defs prim_defs q rejected_writes_def Let_def)
  have h2: "rejected_writes (snd (deleteWorkspace ''a'' ex_quota)) \<noteq> rejected_writes ex_quota"
    by (simp add: deleteWorkspace_def read_defs io_defs prim_defs q rejected_writes_def Let_def)
  have h3: "rejected_writes (snd (setActiveWorkspace (Some ''b'') ex_quota))
              \<noteq> rejected_writes ex_quota"
    by (simp add: setActiveWorkspace_def read_defs io_defs prim_defs q rejected_writes_def Let_def)
  have h4: "rejected_writes (snd (appendHighlight ''a'' exH3 ex_quota)) \<noteq> rejected_writes ex_quota"
    by (simp add: appendHighlight_def read_defs io_defs prim_defs q rejected_writes_def Let_def
        unshift_def obj_get_def obj_set_def ex_quota_def ex_store_def)
  have h5: "rejected_writes (snd (saveSettings (no_settings\<lparr>p_theme := Some Dark\<rparr>) ex_quota))
              \<noteq> rejected_writes ex_quota"
    by (simp add: saveSettings_def read_defs io_defs prim_defs q rejected_writes_def Let_def)
  have h6: "rejected (snd (saveTabSet ''k3j9x0q1z'' ''11/3/2026'' ''a'' [exTab] (Some ''Set2'')
              ex_quota)) \<noteq> rejected ex_quota"
    by (simp add: saveTabSet_def read_defs io_defs prim_defs q Let_def)
  have h7: "rejected (snd (clearAllData ex_quota)) \<noteq> rejected ex_quota"
    by (simp add: clearAllData_def io_defs prim_defs q)
  have h8: "rejected (snd (exportData ex_quota)) \<noteq> rejected ex_quota"
    by (simp add: exportData_def io_defs prim_defs q)
  have h9: "rejected (snd (importData ex_export ex_quota)) \<noteq> rejected ex_quota"
    by (simp add: importData_def io_defs prim_defs q)
  note inst = rejected_calls_propagate [where r = ex_unavailable and m = "''backend unavailable''"
      and rest = "[]" and i = "''a''" and limit = 50 and h = exH3 and W = exB and w = ex_quota
      and a = "Some ''b''" and p = "no_settings\<lparr>p_theme := Some Dark\<rparr>"
      and rnd = "''k3j9x0q1z''" and day = "''11/3/2026''" and tabs = "[exTab]"
      and name = "Some ''Set2''" and d = ex_export]
  from inst r h1 h2 h3 h4 h5 h6 h7 h8 h9 show ?thesis by blast
qed

text \<open>
  \<^verbatim>\<open>saveSettings\<close> reads through \<^verbatim>\<open>getSettings\<close> in the same way: with its read
  rejected it resolves and writes the defaults merged with its argument over the stored
  record, here over a stored \<^verbatim>\<open>maxHighlights: 2\<close>.
\<close>

lemma saveSettings_swallows_rejected_read:
  "fst (getSettings ex_cap2) = Inr (defaultSettings\<lparr>maxHighlights := Some 2\<rparr>) \<and>
   fst (saveSettings (no_settings\<lparr>p_theme := Some Dark\<rparr>)
          (ex_cap2\<lparr>faults := [Some ''backend unavailable'']\<rparr>)) = Inr () \<and>
   fst (getSettings (snd (saveSettings (no_settings\<lparr>p_theme := Some Dark\<rparr>)
          (ex_cap2\<lparr>faults := [Some ''backend unavailable'']\<rparr>))))
     = Inr (defaultSettings\<lparr>theme := Some Dark\<rparr>)"
  by (simp add: saveSettings_def read_defs io_defs prim_defs Let_def ex_cap2_def spread_def
      settings_object_def defaultSettings_def no_settings_def or_settings_def)

section \<open>Checks of the model\<close>

text \<open>
  The manager keeps workspace ids unique; deleting a workspace leaves the tab sets and
  the highlights of the other workspaces as they were; the scenario of the specification
  runs as described there.
\<close>

lemma map_ws_id_upsert_distinct:
  "distinct (map ws_id ws) \<Longrightarrow> distinct (map ws_id (upsert now W ws))"
proof (cases "0 \<le> findIndex (\<lambda>x. ws_id x = ws_id W) ws")
  case True
  assume d: "distinct (map ws_id ws)"
  have pos: "0 \<le> findIndex P xs \<Longrightarrow> nat (findIndex P xs) < length xs \<and> P (xs ! nat (findIndex P xs))"
    for P :: "Workspace \<Rightarrow> bool" and xs
  proof (induction xs)
    case Nil
    then show ?case by simp
  next
    case (Cons x xs)
    show ?case
    proof (cases "P x")
      case True
      then show ?thesis by simp
    next
      case False
      then have nn: "0 \<le> findIndex P xs"
        using Cons.prems by (simp add: Let_def split: if_splits)
      then have "nat (findIndex P xs + 1) = Suc (nat (findIndex P xs))" by simp
      then show ?thesis using False nn Cons.IH [OF nn] by (simp add: Let_def)
    qed
  qed
  let ?k = "nat (findIndex (\<lambda>x. ws_id x = ws_id W) ws)"
  from pos [OF True] have k: "?k < length ws" and idk: "ws_id (ws ! ?k) = ws_id W" by auto
  have "map ws_id (ws[?k := W\<lparr>ws_updatedAt := now\<rparr>]) = (map ws_id ws)[?k := ws_id W]"
    by (simp add: map_update)
  also have "\<dots> = map ws_id ws"
    using k idk by (metis list_update_id map_update)
  finally show ?thesis using d True by (simp add: upsert_def)
next
  case False
  assume d: "distinct (map ws_id ws)"
  from False have "findIndex (\<lambda>x. ws_id x = ws_id W) ws < 0" by simp
  then have "\<forall>x \<in> set ws. ws_id x \<noteq> ws_id W" by (simp add: findIndex_neg_iff)
  then show ?thesis using d False by (auto simp: upsert_def)
qed

lemma unique_ids_kept:
  assumes "faults w = []" and "distinct (map ws_id (or_workspaces (local w WORKSPACES)))"
  shows "distinct (map ws_id (or_workspaces (local (snd (saveWorkspace W w)) WORKSPACES)))"
    and "distinct (map ws_id (or_workspaces (local (snd (setActiveWorkspace a w)) WORKSPACES)))"
    and "distinct (map ws_id (or_workspaces (local (snd (deleteWorkspace i w)) WORKSPACES)))"
proof -
  show "distinct (map ws_id (or_workspaces (local (snd (saveWorkspace W w)) WORKSPACES)))"
    using assms by (simp add: saveWorkspace_ok map_ws_id_upsert_distinct)
  show "distinct (map ws_id (or_workspaces (local (snd (setActiveWorkspace a w)) WORKSPACES)))"
    using assms by (simp add: setActiveWorkspace_ok activate_def comp_def)
  from deleteWorkspace_ok [OF assms(1), of i] obtain w' where
    "deleteWorkspace i w = (Inr (), w')"
    "or_workspaces (local w' WORKSPACES) =
             (if or_null (sync w ACTIVE_WORKSPACE) = Some i
              then map (activate None (clock w))
                     (filter (\<lambda>x. ws_id x \<noteq> i) (or_workspaces (local w WORKSPACES)))
              else filter (\<lambda>x. ws_id x \<noteq> i) (or_workspaces (local w WORKSPACES)))"
    by blast
  then show "distinct (map ws_id (or_workspaces (local (snd (deleteWorkspace i w)) WORKSPACES)))"
    using assms(2) by (simp add: activate_def comp_def distinct_map_filter)
qed

lemma map_of_fold_update:
  "distinct (map fst hs) \<Longrightarrow> k \<noteq> ''__proto__'' \<Longrightarrow>
   map_of (fold (\<lambda>(workspaceId, highlightList) acc.
             if workspaceId \<noteq> i then obj_set workspaceId highlightList acc else acc)
          hs acc) k =
   (if k \<noteq> i \<and> k \<in> fst ` set hs then map_of hs k else map_of acc k)"
proof (induction hs arbitrary: acc)
  case Nil
  then show ?case by simp
next
  case (Cons h hs)
  obtain j v where h: "h = (j, v)" by (cases h)
  from Cons.prems h have d: "distinct (map fst hs)" and nj: "j \<notin> fst ` set hs" by auto
  have same: "map_of (obj_set k v acc) k = Some v"
    using Cons.prems(2) by (simp add: map_of_obj_set)
  show ?case
    using Cons.IH [OF d Cons.prems(2)] nj h same
    by (auto simp: map_of_obj_set_other image_iff)
qed

lemma deleteWorkspace_frame:
  assumes "faults w = []" and "distinct (map fst (or_highlights (local w HIGHLIGHTS)))"
    and "j \<noteq> i" and "j \<noteq> ''__proto__''"
  shows "fst (getWorkspaceTabSets j (snd (deleteWorkspace i w))) = fst (getWorkspaceTabSets j w)"
    and "fst (getHighlights j limit (snd (deleteWorkspace i w))) = fst (getHighlights j limit w)"
proof -
  from deleteWorkspace_ok [OF assms(1), of i] obtain w' where
    run: "deleteWorkspace i w = (Inr (), w')" and f: "faults w' = []"
    and ts: "or_tabSets (local w' TAB_SETS) =
             filter (\<lambda>ts. ts_workspaceId ts \<noteq> i) (or_tabSets (local w TAB_SETS))"
    and hs: "or_highlights (local w' HIGHLIGHTS) =
             without_group i (or_highlights (local w HIGHLIGHTS))"
    by blast
  have "filter (\<lambda>ts. ts_workspaceId ts = j) (filter (\<lambda>ts. ts_workspaceId ts \<noteq> i) xs)
        = filter (\<lambda>ts. ts_workspaceId ts = j) xs" for xs
    using assms(3) by (induction xs) auto
  then show "fst (getWorkspaceTabSets j (snd (deleteWorkspace i w))) = fst (getWorkspaceTabSets j w)"
    by (simp add: run getWorkspaceTabSets_ok f assms(1) ts)
  have "map_of (without_group i (or_highlights (local w HIGHLIGHTS))) j
        = map_of (or_highlights (local w HIGHLIGHTS)) j"
    unfolding without_group_def
    using assms(3)
    by (auto simp: map_of_fold_update [OF assms(2) assms(4)] map_of_eq_None_iff [symmetric])
  then have "group_of (without_group i (or_highlights (local w HIGHLIGHTS))) j
        = group_of (or_highlights (local w HIGHLIGHTS)) j"
    by (simp add: group_of_def)
  then show "fst (getHighlights j limit (snd (deleteWorkspace i w))) = fst (getHighlights j limit w)"
    by (simp add: run getHighlights_ok f assms(1) hs)
qed

lemma show_nat_100: "show_nat 100 = ''100''"
  by code_simp

lemma scenario_runs:
  "fst (scenario ex_empty) = Inr ()"
  "fst (listWorkspaces (snd (scenario ex_empty)))
     = Inr [exA\<lparr>ws_isActive := True, ws_updatedAt := 100\<rparr>]"
  "fst (getActiveWorkspace (snd (scenario ex_empty))) = Inr (Some ''a'')"
  "fst (getWorkspaceTabSets ''a'' (snd (scenario ex_empty)))
     = Inr [\<lparr> ts_id = ''ts_100_k3j9x0q1z'', ts_workspaceId = ''a'', ts_name = ''Set1'',
              ts_tabs = [exTab], ts_createdAt = 100, ts_updatedAt = 100 \<rparr>]"
  "fst (getHighlights ''a'' 50 (snd (scenario ex_empty))) = Inr [exH2, exH1]"
  "fst (listWorkspaces (snd (deleteWorkspace ''a'' (snd (scenario ex_empty))))) = Inr []"
  "fst (getActiveWorkspace (snd (deleteWorkspace ''a'' (snd (scenario ex_empty))))) = Inr None"
proof -
  have f: "faults ex_empty = []" and c: "clock ex_empty = 100"
    and l: "local ex_empty = Map.empty" and s: "sync ex_empty = Map.empty"
    by (simp_all add: ex_empty_def)
  have na: "''a'' \<notin> set inherited_properties" by (simp add: inherited_properties_def)
  have ni: "\<not> is_index ''a''" by (simp add: is_index_def)
  have run: "scenario ex_empty =
    (Inr (), ex_empty\<lparr>
       sync := [ACTIVE_WORKSPACE \<mapsto> Str ''a''],
       local := [WORKSPACES \<mapsto> WorkspaceArr [exA\<lparr>ws_isActive := True, ws_updatedAt := 100\<rparr>],
                 TAB_SETS \<mapsto> TabSetArr [\<lparr> ts_id = ''ts_100_k3j9x0q1z'', ts_workspaceId = ''a'',
                   ts_name = ''Set1'', ts_tabs = [exTab], ts_createdAt = 100,
                   ts_updatedAt = 100 \<rparr>],
                 HIGHLIGHTS \<mapsto> HighlightObj [(''a'', [exH2, exH1])]]\<rparr>)"
    unfolding scenario_def
    apply (simp add: await_def saveWorkspace_ok setActiveWorkspace_ok f c l s
        upsert_def activate_def)
    apply (simp add: saveTabSet_def io_defs getAllTabSets_ok local_set_ok f c l s show_nat_100 Let_def)
    apply (simp add: appendHighlight_ok na ni f with_highlight_def highlight_cap_def spread_def
        defaultSettings_def no_settings_def s group_of_def obj_get_def obj_set_def Let_def
        exA_def fun_upd_twist)
    done
  show "fst (scenario ex_empty) = Inr ()" by (simp add: run)
  show "fst (listWorkspaces (snd (scenario ex_empty)))
     = Inr [exA\<lparr>ws_isActive := True, ws_updatedAt := 100\<rparr>]"
    by (simp add: run listWorkspaces_ok f)
  show "fst (getActiveWorkspace (snd (scenario ex_empty))) = Inr (Some ''a'')"
    by (simp add: run getActiveWorkspace_ok f or_null_def)
  show "fst (getWorkspaceTabSets ''a'' (snd (scenario ex_empty)))
     = Inr [\<lparr> ts_id = ''ts_100_k3j9x0q1z'', ts_workspaceId = ''a'', ts_name = ''Set1'',
              ts_tabs = [exTab], ts_createdAt = 100, ts_updatedAt = 100 \<rparr>]"
    by (simp add: run getWorkspaceTabSets_ok f)
  show "fst (getHighlights ''a'' 50 (snd (scenario ex_empty))) = Inr [exH2, exH1]"
    by (simp add: run getHighlights_ok f group_of_def slice0_def)
  have f': "faults (snd (scenario ex_empty)) = []" by (simp add: run f)
  from deleteWorkspace_ok [OF f', of "''a''"] obtain w' where
    d: "deleteWorkspace ''a'' (snd (scenario ex_empty)) = (Inr (), w')" and fw: "faults w' = []"
    and ws: "or_workspaces (local w' WORKSPACES) =
             (if or_null (sync (snd (scenario ex_empty)) ACTIVE_WORKSPACE) = Some ''a''
              then map (activate None (clock (snd (scenario ex_empty))))
                     (filter (\<lambda>x. ws_id x \<noteq> ''a'')
                        (or_workspaces (local (snd (scenario ex_empty)) WORKSPACES)))
              else filter (\<lambda>x. ws_id x \<noteq> ''a'')
                     (or_workspaces (local (snd (scenario ex_empty)) WORKSPACES)))"
    and ptr: "sync w' ACTIVE_WORKSPACE =
             (if or_null (sync (snd (scenario ex_empty)) ACTIVE_WORKSPACE) = Some ''a'' then None
              else sync (snd (scenario ex_empty)) ACTIVE_WORKSPACE)"
    by blast
  show "fst (listWorkspaces (snd (deleteWorkspace ''a'' (snd (scenario ex_empty))))) = Inr []"
    by (simp add: d listWorkspaces_ok fw ws) (simp add: run exA_def)
  show "fst (getActiveWorkspace (snd (deleteWorkspace ''a'' (snd (scenario ex_empty))))) = Inr None"
    by (simp add: d getActiveWorkspace_ok fw ptr) (simp add: run or_null_def)
qed

section \<open>The claims\<close>

text \<open>
  C1. For every sequence of \<^verbatim>\<open>setActiveWorkspace\<close> calls, made at any times on a backend
  that does not fail: after the last call of the sequence (so after each call), a
  workspace of \<^verbatim>\<open>listWorkspaces()\<close> has \<^verbatim>\<open>isActive = true\<close> exactly when its id is the
  argument of that last call, so none has after a call with \<^verbatim>\<open>null\<close>; and at most one
  workspace is active, the stored workspace ids being unique (the data model's identity of
  a workspace, which \<^verbatim>\<open>saveWorkspace\<close>, \<^verbatim>\<open>deleteWorkspace\<close> and \<^verbatim>\<open>setActiveWorkspace\<close>
  keep).
\<close>

theorem single_active_workspace:
  assumes "faults w = []"
    and "listWorkspaces w = (Inr ws0, w)"
  shows "\<exists>w' ws. setActiveWorkspace_calls (calls @ [(t, i)]) w = (Inr (), w') \<and>
           listWorkspaces w' = (Inr ws, w') \<and>
           (\<forall>x \<in> set ws. ws_isActive x \<longleftrightarrow> i = Some (ws_id x)) \<and>
           (distinct (map ws_id ws0) \<longrightarrow> length (filter ws_isActive ws) \<le> 1)"
proof -
  from calls_ok [OF assms(1), of calls] obtain w1 where
    w1: "setActiveWorkspace_calls calls w = (Inr (), w1)" and f1: "faults w1 = []"
    and ids1: "map ws_id (or_workspaces (local w1 WORKSPACES)) =
               map ws_id (or_workspaces (local w WORKSPACES))" by blast
  have ws0: "ws0 = or_workspaces (local w WORKSPACES)"
    using assms by (simp add: listWorkspaces_ok)
  let ?ws1 = "or_workspaces (local w1 WORKSPACES)"
  let ?w2 = "w1\<lparr>clock := t\<rparr>"
  have f2: "faults ?w2 = []" using f1 by simp
  let ?ws = "map (activate i t) ?ws1"
  from setActiveWorkspace_list [OF f2, of i]
  obtain w' where w': "setActiveWorkspace i ?w2 = (Inr (), w')" and f': "faults w' = []"
    and ws': "or_workspaces (local w' WORKSPACES) = ?ws"
    by auto
  have run: "setActiveWorkspace_calls (calls @ [(t, i)]) w = (Inr (), w')"
    using w1 w' by (simp add: calls_append await_def tick_ok resolve_def)
  have list: "listWorkspaces w' = (Inr ?ws, w')"
    using f' ws' by (simp add: listWorkspaces_ok)
  have which: "\<forall>x \<in> set ?ws. ws_isActive x \<longleftrightarrow> i = Some (ws_id x)"
    by (auto simp: activate_def)
  have one: "length (filter ws_isActive ?ws) \<le> 1" if d: "distinct (map ws_id ws0)"
  proof -
    have d1: "distinct (map ws_id ?ws1)" using ids1 d ws0 by simp
    have "length (filter (\<lambda>x. ws_id x = a) ?ws1) \<le> Suc 0" for a
      using d1 by (rule filter_key_le_one)
    then show ?thesis
      by (cases i) (simp_all add: active_after_activate)
  qed
  from run list one which show ?thesis by blast
qed

theorem single_active_workspace_witness:
  "faults ex_world = [] \<and> listWorkspaces ex_world = (Inr [exA, exB], ex_world) \<and>
   distinct (map ws_id [exA, exB]) \<and>
   (\<exists>w' ws. setActiveWorkspace_calls ([(101, Some ''a'')] @ [(102, Some ''b'')]) ex_world
               = (Inr (), w') \<and>
            listWorkspaces w' = (Inr ws, w') \<and>
            (\<forall>x \<in> set ws. ws_isActive x \<longleftrightarrow> Some ''b'' = Some (ws_id x)) \<and>
            length (filter ws_isActive ws) \<le> 1)"
proof -
  have h1: "faults ex_world = []" by (simp add: ex_world_def)
  have h2: "listWorkspaces ex_world = (Inr [exA, exB], ex_world)"
    by (simp add: listWorkspaces_ok h1) (simp add: ex_world_def)
  have h3: "distinct (map ws_id [exA, exB])" by (simp add: exA_def exB_def)
  from single_active_workspace [OF h1 h2, of "[(101, Some ''a'')]" 102 "Some ''b''"] h1 h2 h3
  show ?thesis by blast
qed

text \<open>
  C2. On a backend that does not fail, for every workspace id (so for the id of every
  workspace present in the store, with any tab sets and highlight group): after
  \<^verbatim>\<open>deleteWorkspace(id)\<close> completes, \<^verbatim>\<open>getWorkspaceTabSets(id)\<close> returns \<^verbatim>\<open>[]\<close>,
  \<^verbatim>\<open>getHighlights(id)\<close> returns \<^verbatim>\<open>[]\<close> for every limit, \<^verbatim>\<open>getWorkspace(id)\<close> returns
  \<^verbatim>\<open>null\<close>, and if the active pointer was that id, \<^verbatim>\<open>getActiveWorkspace()\<close> returns
  \<^verbatim>\<open>null\<close>.
\<close>

theorem cascading_delete:
  assumes "faults w = []"
  shows "\<exists>w'. deleteWorkspace i w = (Inr (), w') \<and>
           getWorkspaceTabSets i w' = (Inr [], w') \<and>
           getHighlights i limit w' = (Inr [], w') \<and>
           getWorkspace i w' = (Inr None, w') \<and>
           (getActiveWorkspace w = (Inr (Some i), w) \<longrightarrow>
              getActiveWorkspace w' = (Inr None, w'))"
proof -
  from deleteWorkspace_ok [OF assms, of i] obtain w' where
    run: "deleteWorkspace i w = (Inr (), w')" and f: "faults w' = []"
    and ws: "or_workspaces (local w' WORKSPACES) =
             (if or_null (sync w ACTIVE_WORKSPACE) = Some i
              then map (activate None (clock w))
                     (filter (\<lambda>x. ws_id x \<noteq> i) (or_workspaces (local w WORKSPACES)))
              else filter (\<lambda>x. ws_id x \<noteq> i) (or_workspaces (local w WORKSPACES)))"
    and ts: "or_tabSets (local w' TAB_SETS) =
             filter (\<lambda>ts. ts_workspaceId ts \<noteq> i) (or_tabSets (local w TAB_SETS))"
    and hs: "or_highlights (local w' HIGHLIGHTS) =
             without_group i (or_highlights (local w HIGHLIGHTS))"
    and ptr: "sync w' ACTIVE_WORKSPACE =
             (if or_null (sync w ACTIVE_WORKSPACE) = Some i then None
              else sync w ACTIVE_WORKSPACE)"
    by blast
  have t: "getWorkspaceTabSets i w' = (Inr [], w')"
    by (simp add: getWorkspaceTabSets_ok f ts filter_empty_conv)
  have h: "getHighlights i limit w' = (Inr [], w')"
    by (simp add: getHighlights_ok f hs group_of_without_group)
  have "find (\<lambda>x. ws_id x = i) (or_workspaces (local w' WORKSPACES)) = None"
    by (auto simp: ws find_None_iff activate_def)
  then have g: "getWorkspace i w' = (Inr None, w')"
    by (simp add: getWorkspace_ok f)
  have a: "getActiveWorkspace w = (Inr (Some i), w) \<longrightarrow> getActiveWorkspace w' = (Inr None, w')"
    by (simp add: getActiveWorkspace_ok f assms ptr)
  from run t h g a show ?thesis by blast
qed

theorem cascading_delete_witness:
  "faults ex_store = [] \<and>
   getActiveWorkspace ex_store = (Inr (Some ''a''), ex_store) \<and>
   getWorkspace ''a'' ex_store = (Inr (Some (exA\<lparr>ws_isActive := True\<rparr>)), ex_store) \<and>
   getWorkspaceTabSets ''a'' ex_store = (Inr [exSet], ex_store) \<and>
   getHighlights ''a'' 50 ex_store = (Inr [exH2, exH1], ex_store) \<and>
   (\<exists>w'. deleteWorkspace ''a'' ex_store = (Inr (), w') \<and>
         getWorkspaceTabSets ''a'' w' = (Inr [], w') \<and>
         getHighlights ''a'' 50 w' = (Inr [], w') \<and>
         getWorkspace ''a'' w' = (Inr None, w') \<and>
         getActiveWorkspace w' = (Inr None, w'))"
proof -
  have f: "faults ex_store = []" by (simp add: ex_store_def)
  have a: "getActiveWorkspace ex_store = (Inr (Some ''a''), ex_store)"
    by (simp add: getActiveWorkspace_ok f) (simp add: ex_store_def or_null_def)
  have g: "getWorkspace ''a'' ex_store = (Inr (Some (exA\<lparr>ws_isActive := True\<rparr>)), ex_store)"
    by (simp add: getWorkspace_ok f) (simp add: ex_store_def exA_def)
  have t: "getWorkspaceTabSets ''a'' ex_store = (Inr [exSet], ex_store)"
    by (simp add: getWorkspaceTabSets_ok f) (simp add: ex_store_def exSet_def)
  have h: "getHighlights ''a'' 50 ex_store = (Inr [exH2, exH1], ex_store)"
    by (simp add: getHighlights_ok f) (simp add: ex_store_def group_of_def slice0_def)
  from cascading_delete [OF f, of "''a''" 50] a f g t h show ?thesis by auto
qed

text \<open>
  C3, as amended. With the settings cap \<^verbatim>\<open>maxHighlights = K\<close> for a positive \<open>K\<close>, on a
  backend that does not fail, for every workspace id that is not the name of a property
  every JavaScript object inherits (\<^verbatim>\<open>constructor\<close>, \<^verbatim>\<open>toString\<close>, \<^verbatim>\<open>__proto__\<close>, ...: the list
  \<^const>\<open>inherited_properties\<close>) and every sequence of appends \<open>h1..hn\<close>: after a non-empty
  sequence the stored group of that workspace has at most \<open>K\<close> entries, and when
  \<open>n = K + M\<close>, \<^verbatim>\<open>getHighlights(id, K+M)\<close> returns the \<open>K\<close> most recent highlights, newest
  first: \<open>[h(K+M), ..., h(M+1)]\<close>. (A cap of 0 is read as 50; an append under an inherited
  name that the stored object does not own throws and stores nothing.)
\<close>

theorem highlight_cap_newest_first:
  assumes "faults w = []"
    and "getSettings w = (Inr s, w)"
    and "maxHighlights s = Some (int K)"
    and "0 < K"
    and "i \<notin> set inherited_properties"
  shows "\<exists>w' stored. appendHighlight_calls i hs w = (Inr (), w') \<and>
           getAllHighlights w' = (Inr stored, w') \<and>
           (hs \<noteq> [] \<longrightarrow> length (group_of stored i) \<le> K) \<and>
           (length hs = K + M \<longrightarrow>
              getHighlights i (int (K + M)) w' = (Inr (rev (drop M hs)), w'))"
proof -
  have s: "s = spread defaultSettings (or_settings (sync w SETTINGS))"
    using assms(1,2) by (simp add: getSettings_ok)
  have cap: "highlight_cap (spread defaultSettings (or_settings (sync w SETTINGS))) = int K"
    using assms(3,4) s by (simp add: highlight_cap_def)
  let ?g0 = "group_of (or_highlights (local w HIGHLIGHTS)) i"
  from appendHighlight_calls_ok [OF assms(4) assms(5) assms(1) cap, of hs] obtain w' where
    run: "appendHighlight_calls i hs w = (Inr (), w')" and f': "faults w' = []"
    and g': "group_of (or_highlights (local w' HIGHLIGHTS)) i =
          (if hs = [] then ?g0 else take K (rev hs @ ?g0))"
    by blast
  let ?stored = "or_highlights (local w' HIGHLIGHTS)"
  have all: "getAllHighlights w' = (Inr ?stored, w')"
    by (simp add: getAllHighlights_ok f')
  have bound: "hs \<noteq> [] \<longrightarrow> length (group_of ?stored i) \<le> K"
    by (simp add: g' del: take_append)
  have exact: "getHighlights i (int (K + M)) w' = (Inr (rev (drop M hs)), w')"
    if len: "length hs = K + M"
  proof -
    have ne: "hs \<noteq> []" using len assms(4) by auto
    have "group_of ?stored i = take K (rev hs)"
      using g' ne len by simp
    then have "group_of ?stored i = rev (drop M hs)"
      using take_rev_drop [OF len] by simp
    then show ?thesis
      using len by (simp add: getHighlights_ok f' slice0_def)
  qed
  from run all bound exact show ?thesis by blast
qed

theorem highlight_cap_newest_first_witness:
  "faults ex_cap2 = [] \<and>
   getSettings ex_cap2 = (Inr (defaultSettings\<lparr>maxHighlights := Some 2\<rparr>), ex_cap2) \<and>
   ''a'' \<notin> set inherited_properties \<and>
   (\<exists>w' stored. appendHighlight_calls ''a'' [exH1, exH2, exH3] ex_cap2 = (Inr (), w') \<and>
      getAllHighlights w' = (Inr stored, w') \<and>
      length (group_of stored ''a'') \<le> 2 \<and>
      getHighlights ''a'' 3 w' = (Inr [exH3, exH2], w'))"
proof -
  have f: "faults ex_cap2 = []" by (simp add: ex_cap2_def)
  have s: "getSettings ex_cap2 = (Inr (defaultSettings\<lparr>maxHighlights := Some 2\<rparr>), ex_cap2)"
    by (simp add: getSettings_ok f)
       (simp add: ex_cap2_def spread_def defaultSettings_def no_settings_def)
  have m: "maxHighlights (defaultSettings\<lparr>maxHighlights := Some 2\<rparr>) = Some (int 2)"
    by simp
  have k: "0 < (2::nat)" by simp
  have i: "''a'' \<notin> set inherited_properties" by (simp add: inherited_properties_def)
  from highlight_cap_newest_first [OF f s m k i, of "[exH1, exH2, exH3]" 1] f s i
  show ?thesis by auto
qed

text \<open>
  C3 as stated fails for \<open>K = 0\<close>, \<open>M = 1\<close>: the claim gives the empty list and an empty
  stored group, the code reads the cap 0 as 50 and keeps the highlight. It also fails
  for the cap 2 and the workspace id \<^verbatim>\<open>constructor\<close>: the append finds the inherited
  function under that name, throws, and a later read returns no highlight.
\<close>

theorem highlight_cap_zero_counterexample:
  "fst (getSettings ex_cap0) = Inr (defaultSettings\<lparr>maxHighlights := Some 0\<rparr>) \<and>
   fst (getHighlights ''a'' (0 + 1) (snd (appendHighlight_calls ''a'' [exH1] ex_cap0)))
     = Inr [exH1] \<and>
   [exH1] \<noteq> rev (drop 1 [exH1]) \<and>
   \<not> length [exH1] \<le> 0 \<and>
   fst (getSettings ex_cap2) = Inr (defaultSettings\<lparr>maxHighlights := Some 2\<rparr>) \<and>
   fst (appendHighlight ''constructor'' exH3 ex_cap2) =
     Inl (Error (''Failed to append highlight: TypeError: '' @
                 ''allHighlights[workspaceId].unshift is not a function'')) \<and>
   snd (appendHighlight ''constructor'' exH3 ex_cap2) = ex_cap2 \<and>
   fst (getHighlights ''constructor'' 1 ex_cap2) = Inr []"
proof -
  have f: "faults ex_cap0 = []" by (simp add: ex_cap0_def)
  have s: "fst (getSettings ex_cap0) = Inr (defaultSettings\<lparr>maxHighlights := Some 0\<rparr>)"
    by (simp add: getSettings_ok f)
       (simp add: ex_cap0_def spread_def defaultSettings_def no_settings_def)
  have c: "highlight_cap (spread defaultSettings (or_settings (sync ex_cap0 SETTINGS))) = 50"
    by (simp add: ex_cap0_def highlight_cap_def spread_def defaultSettings_def no_settings_def)
  have g: "fst (getHighlights ''a'' (0 + 1) (snd (appendHighlight_calls ''a'' [exH1] ex_cap0)))
     = Inr [exH1]"
    by (simp add: await_def resolve_def appendHighlight_ok f c getHighlights_ok
        group_of_with_highlight slice0_def inherited_properties_def)
  have f2: "faults ex_cap2 = []" by (simp add: ex_cap2_def)
  have s2: "fst (getSettings ex_cap2) = Inr (defaultSettings\<lparr>maxHighlights := Some 2\<rparr>)"
    by (simp add: getSettings_ok f2)
       (simp add: ex_cap2_def spread_def defaultSettings_def no_settings_def)
  have o: "obj_get (or_highlights (local ex_cap2 HIGHLIGHTS)) ''constructor'' = Inherited"
    by (simp add: ex_cap2_def obj_get_def inherited_properties_def)
  have a: "appendHighlight ''constructor'' exH3 ex_cap2 =
     (Inl (Error (''Failed to append highlight: TypeError: '' @
                  ''allHighlights[workspaceId].unshift is not a function'')), ex_cap2)"
    by (simp add: appendHighlight_inherited [OF f2 o])
  have r: "fst (getHighlights ''constructor'' 1 ex_cap2) = Inr []"
    using o by (simp add: getHighlights_def await_def try_catch_def throw_def resolve_def
        getAllHighlights_ok f2)
  from s g s2 a r show ?thesis by simp
qed

text \<open>
  C4, as amended. On a backend that does not fail, for every workspace record \<open>W\<close>,
  \<^verbatim>\<open>saveWorkspace(W)\<close> then \<^verbatim>\<open>getWorkspace(W.id)\<close> returns a record equal to \<open>W\<close> in every
  field except \<^verbatim>\<open>updatedAt\<close>. When a record with that id existed before the save, the
  returned \<^verbatim>\<open>updatedAt\<close> is at least the time of the save call; when none existed, the
  returned record is \<open>W\<close> itself, with the \<^verbatim>\<open>updatedAt\<close> the caller supplied.
\<close>

theorem save_then_get_workspace:
  assumes "faults w = []"
  shows "\<exists>w' r. saveWorkspace W w = (Inr (), w') \<and>
           getWorkspace (ws_id W) w' = (Inr (Some r), w') \<and>
           r\<lparr>ws_updatedAt := ws_updatedAt W\<rparr> = W \<and>
           (getWorkspace (ws_id W) w \<noteq> (Inr None, w) \<longrightarrow> clock w \<le> ws_updatedAt r) \<and>
           (getWorkspace (ws_id W) w = (Inr None, w) \<longrightarrow> r = W)"
proof -
  let ?ws = "or_workspaces (local w WORKSPACES)"
  let ?w' = "w\<lparr>local := (local w)(WORKSPACES \<mapsto> WorkspaceArr (upsert (clock w) W ?ws))\<rparr>"
  let ?r = "if find (\<lambda>x. ws_id x = ws_id W) ?ws = None then W else W\<lparr>ws_updatedAt := clock w\<rparr>"
  have run: "saveWorkspace W w = (Inr (), ?w')"
    by (rule saveWorkspace_ok [OF assms])
  have f': "faults ?w' = []" using assms by simp
  have get: "getWorkspace (ws_id W) ?w' = (Inr (Some ?r), ?w')"
    by (simp add: getWorkspace_ok [OF f'] find_upsert)
  have same: "?r\<lparr>ws_updatedAt := ws_updatedAt W\<rparr> = W" by simp
  have old: "getWorkspace (ws_id W) w \<noteq> (Inr None, w) \<longrightarrow> clock w \<le> ws_updatedAt ?r"
    by (simp add: getWorkspace_ok [OF assms])
  have new: "getWorkspace (ws_id W) w = (Inr None, w) \<longrightarrow> ?r = W"
    by (simp add: getWorkspace_ok [OF assms])
  from run get same old new show ?thesis by blast
qed

theorem save_then_get_workspace_witness:
  "faults ex_world = [] \<and>
   getWorkspace ''a'' ex_world \<noteq> (Inr None, ex_world) \<and>
   (\<exists>w' r. saveWorkspace (exA\<lparr>ws_name := ''Renamed''\<rparr>) ex_world = (Inr (), w') \<and>
      getWorkspace ''a'' w' = (Inr (Some r), w') \<and>
      r\<lparr>ws_updatedAt := 1\<rparr> = exA\<lparr>ws_name := ''Renamed''\<rparr> \<and>
      clock ex_world \<le> ws_updatedAt r) \<and>
   faults ex_empty = [] \<and>
   getWorkspace ''a'' ex_empty = (Inr None, ex_empty) \<and>
   (\<exists>w'. saveWorkspace exA ex_empty = (Inr (), w') \<and>
      getWorkspace ''a'' w' = (Inr (Some exA), w'))"
proof -
  have f1: "faults ex_world = []" by (simp add: ex_world_def)
  have g1: "getWorkspace ''a'' ex_world \<noteq> (Inr None, ex_world)"
    by (simp add: getWorkspace_ok f1) (simp add: ex_world_def exA_def)
  have f2: "faults ex_empty = []" by (simp add: ex_empty_def)
  have g2: "getWorkspace ''a'' ex_empty = (Inr None, ex_empty)"
    by (simp add: getWorkspace_ok f2) (simp add: ex_empty_def)
  have i1: "ws_id (exA\<lparr>ws_name := ''Renamed''\<rparr>) = ''a''"
    and u1: "ws_updatedAt (exA\<lparr>ws_name := ''Renamed''\<rparr>) = 1"
    and i2: "ws_id exA = ''a''"
    by (simp_all add: exA_def)
  from save_then_get_workspace [OF f1, of "exA\<lparr>ws_name := ''Renamed''\<rparr>"]
  have a: "\<exists>w' r. saveWorkspace (exA\<lparr>ws_name := ''Renamed''\<rparr>) ex_world = (Inr (), w') \<and>
      getWorkspace ''a'' w' = (Inr (Some r), w') \<and>
      r\<lparr>ws_updatedAt := 1\<rparr> = exA\<lparr>ws_name := ''Renamed''\<rparr> \<and>
      clock ex_world \<le> ws_updatedAt r"
    unfolding i1 u1 using g1 by blast
  from save_then_get_workspace [OF f2, of exA]
  have b: "\<exists>w'. saveWorkspace exA ex_empty = (Inr (), w') \<and>
      getWorkspace ''a'' w' = (Inr (Some exA), w')"
    unfolding i2 using g2 by blast
  from f1 g1 a f2 g2 b show ?thesis by blast
qed

text \<open>
  C4 as stated fails for a new record: saved at time 100 with \<^verbatim>\<open>updatedAt = 1\<close> into the
  empty store, the record comes back with \<^verbatim>\<open>updatedAt = 1\<close>, which is before the save.
\<close>

theorem save_new_workspace_counterexample:
  "clock ex_empty = 100 \<and>
   fst (getWorkspace (ws_id exA) ex_empty) = Inr None \<and>
   fst (getWorkspace (ws_id exA) (snd (saveWorkspace exA ex_empty))) = Inr (Some exA) \<and>
   \<not> clock ex_empty \<le> ws_updatedAt exA"
proof -
  have f: "faults ex_empty = []" by (simp add: ex_empty_def)
  have c: "clock ex_empty = 100" by (simp add: ex_empty_def)
  have n: "fst (getWorkspace (ws_id exA) ex_empty) = Inr None"
    by (simp add: getWorkspace_ok f) (simp add: ex_empty_def)
  have "or_workspaces (local ex_empty WORKSPACES) = []" by (simp add: ex_empty_def)
  then have g: "fst (getWorkspace (ws_id exA) (snd (saveWorkspace exA ex_empty))) = Inr (Some exA)"
    by (simp add: saveWorkspace_ok f getWorkspace_ok upsert_def)
  have u: "\<not> clock ex_empty \<le> ws_updatedAt exA" by (simp add: ex_empty_def exA_def)
  from c n g u show ?thesis by blast
qed

text \<open>
  C5. On a backend that does not fail, for any two partial settings objects \<open>A\<close> and \<open>B\<close>
  (with disjoint keys or not), \<^verbatim>\<open>saveSettings(A)\<close> then \<^verbatim>\<open>saveSettings(B)\<close> leaves the same
  store, hence the same effective settings as read by \<^verbatim>\<open>getSettings()\<close>, as the single
  call \<^verbatim>\<open>saveSettings({...A, ...B})\<close>; every key of \<open>B\<close>, the later call, has \<open>B\<close>'s value
  in the effective settings (spreading \<open>B\<close> over them again changes nothing).
\<close>

theorem settings_merge:
  assumes "faults w = []"
  shows "\<exists>w' s. await (saveSettings A) (\<lambda>_. saveSettings B) w = (Inr (), w') \<and>
           saveSettings (spread_partial A B) w = (Inr (), w') \<and>
           getSettings w' = (Inr s, w') \<and>
           spread s B = s"
proof -
  let ?s0 = "spread defaultSettings (or_settings (sync w SETTINGS))"
  from saveSettings_effective [OF assms, of A] obtain w1 where
    r1: "saveSettings A w = (Inr (), w1)" and f1: "faults w1 = []"
    and e1: "spread defaultSettings (or_settings (sync w1 SETTINGS)) = spread ?s0 A"
    and w1: "w1 = w\<lparr>sync := (sync w)(SETTINGS \<mapsto> SettingsObj (settings_object (spread ?s0 A)))\<rparr>"
    by blast
  from saveSettings_effective [OF f1, of B] obtain w2 where
    r2: "saveSettings B w1 = (Inr (), w2)" and f2: "faults w2 = []"
    and e2: "spread defaultSettings (or_settings (sync w2 SETTINGS)) =
             spread (spread defaultSettings (or_settings (sync w1 SETTINGS))) B"
    and w2: "w2 = w1\<lparr>sync := (sync w1)(SETTINGS \<mapsto> SettingsObj (settings_object
               (spread (spread defaultSettings (or_settings (sync w1 SETTINGS))) B)))\<rparr>"
    by blast
  have w2': "w2 = w\<lparr>sync := (sync w)(SETTINGS \<mapsto> SettingsObj (settings_object
               (spread ?s0 (spread_partial A B))))\<rparr>"
    unfolding w2 e1 by (simp add: w1 spread_spread spread_partial_assoc)
  have seq: "await (saveSettings A) (\<lambda>_. saveSettings B) w = (Inr (), w2)"
    by (simp add: await_def r1 r2)
  have single: "saveSettings (spread_partial A B) w = (Inr (), w2)"
    by (simp add: saveSettings_ok [OF assms] w2')
  let ?s = "spread (spread ?s0 A) B"
  have eff: "getSettings w2 = (Inr ?s, w2)"
    by (simp add: getSettings_ok [OF f2] e2 e1)
  have wins: "spread ?s B = ?s" by (rule spread_idem)
  from seq single eff wins show ?thesis by blast
qed

theorem settings_merge_witness:
  "faults ex_empty = [] \<and>
   (\<exists>w' s. await (saveSettings (no_settings\<lparr>p_focusModeEnabled := Some True\<rparr>))
              (\<lambda>_. saveSettings (no_settings\<lparr>p_theme := Some Dark\<rparr>)) ex_empty = (Inr (), w') \<and>
      saveSettings (spread_partial (no_settings\<lparr>p_focusModeEnabled := Some True\<rparr>)
                      (no_settings\<lparr>p_theme := Some Dark\<rparr>)) ex_empty = (Inr (), w') \<and>
      getSettings w' = (Inr s, w') \<and>
      theme s = Some Dark)"
proof -
  have f: "faults ex_empty = []" by (simp add: ex_empty_def)
  from settings_merge [OF f, of "no_settings\<lparr>p_focusModeEnabled := Some True\<rparr>"
      "no_settings\<lparr>p_theme := Some Dark\<rparr>"]
  obtain w' s where
    a: "await (saveSettings (no_settings\<lparr>p_focusModeEnabled := Some True\<rparr>))
              (\<lambda>_. saveSettings (no_settings\<lparr>p_theme := Some Dark\<rparr>)) ex_empty = (Inr (), w')"
    and b: "saveSettings (spread_partial (no_settings\<lparr>p_focusModeEnabled := Some True\<rparr>)
                      (no_settings\<lparr>p_theme := Some Dark\<rparr>)) ex_empty = (Inr (), w')"
    and c: "getSettings w' = (Inr s, w')"
    and d: "spread s (no_settings\<lparr>p_theme := Some Dark\<rparr>) = s"
    by blast
  have "theme (spread s (no_settings\<lparr>p_theme := Some Dark\<rparr>)) = Some Dark"
    by (simp add: spread_def)
  then have "theme s = Some Dark" using d by simp
  with f a b c show ?thesis by blast
qed

text \<open>
  C6. On a backend that does not fail, for every store state, \<^verbatim>\<open>importData(exportData())\<close>
  leaves the whole world as it was before the export: both partitions have the same keys
  and values, so \<^verbatim>\<open>listWorkspaces()\<close>, \<^verbatim>\<open>getSettings()\<close>, the tab sets and the highlights
  are unchanged. Import adds the exported maps to the partitions and clears nothing.
\<close>

theorem export_import_round_trip:
  assumes "faults w = []"
  shows "\<exists>d. exportData w = (Inr d, w) \<and> importData d w = (Inr (), w)"
proof -
  let ?d = "\<lparr> ex_sync = sync w, ex_local = local w, ex_exportedAt = clock w,
              ex_version = ''1.0.0'' \<rparr>"
  have e: "exportData w = (Inr ?d, w)"
    using assms
    by (simp add: exportData_def io_defs sync_get_all_ok local_get_all_ok)
  have i: "importData ?d w = (Inr (), w)"
    using assms
    by (simp add: importData_def io_defs sync_set_ok local_set_ok map_add_self)
  from e i show ?thesis by blast
qed

theorem export_import_round_trip_witness:
  "faults ex_store = [] \<and>
   (\<exists>d. exportData ex_store = (Inr d, ex_store) \<and> importData d ex_store = (Inr (), ex_store))"
proof -
  have f: "faults ex_store = []" by (simp add: ex_store_def)
  from export_import_round_trip [OF f] f show ?thesis by blast
qed

text \<open>
  C7. On backend failure the read operations degrade and the write operations are to
  reject with a descriptive error rather than fail silently. The code breaks the second
  part where a write operation reads through \<^verbatim>\<open>listWorkspaces\<close>: on the store holding
  the workspaces \<open>a\<close> and \<open>b\<close>, with the next backend call rejected, \<^verbatim>\<open>saveWorkspace\<close> of
  a renamed \<open>b\<close> resolves, the one rejected call is its read of the collection, and the
  collection it leaves holds the saved record alone. On the same store the sibling
  \<^verbatim>\<open>saveTabSet\<close>, whose read is not guarded, rejects with
  \<^verbatim>\<open>Failed to save tab set: Error: backend unavailable\<close>.
\<close>

theorem saveWorkspace_swallows_rejected_read:
  "faults ex_unavailable = [Some ''backend unavailable''] \<and>
   or_workspaces (local ex_unavailable WORKSPACES) = [exA\<lparr>ws_isActive := True\<rparr>, exB] \<and>
   fst (saveWorkspace (exB\<lparr>ws_name := ''Renamed''\<rparr>) ex_unavailable) = Inr () \<and>
   rejected (snd (saveWorkspace (exB\<lparr>ws_name := ''Renamed''\<rparr>) ex_unavailable))
     = [(MGet, ''backend unavailable'')] \<and>
   fst (listWorkspaces (snd (saveWorkspace (exB\<lparr>ws_name := ''Renamed''\<rparr>) ex_unavailable)))
     = Inr [exB\<lparr>ws_name := ''Renamed''\<rparr>] \<and>
   fst (saveTabSet ''k3j9x0q1z'' ''11/3/2026'' ''a'' [exTab] (Some ''Set2'') ex_unavailable)
     = Inl (Error ''Failed to save tab set: Error: backend unavailable'')"
proof -
  have u: "faults ex_unavailable = [Some ''backend unavailable'']" "rejected ex_unavailable = []"
    by (simp_all add: ex_unavailable_def ex_store_def)
  have l: "or_workspaces (local ex_unavailable WORKSPACES) = [exA\<lparr>ws_isActive := True\<rparr>, exB]"
    by (simp add: ex_unavailable_def ex_store_def)
  have a: "fst (saveWorkspace (exB\<lparr>ws_name := ''Renamed''\<rparr>) ex_unavailable) = Inr ()"
    "rejected (snd (saveWorkspace (exB\<lparr>ws_name := ''Renamed''\<rparr>) ex_unavailable))
       = [(MGet, ''backend unavailable'')]"
    "fst (listWorkspaces (snd (saveWorkspace (exB\<lparr>ws_name := ''Renamed''\<rparr>) ex_unavailable)))
       = Inr [exB\<lparr>ws_name := ''Renamed''\<rparr>]"
    by (simp_all add: saveWorkspace_def read_defs io_defs prim_defs u Let_def)
  have b: "fst (saveTabSet ''k3j9x0q1z'' ''11/3/2026'' ''a'' [exTab] (Some ''Set2'') ex_unavailable)
     = Inl (Error ''Failed to save tab set: Error: backend unavailable'')"
    by (simp add: saveTabSet_def read_defs io_defs prim_defs u Let_def)
  from u(1) l a b show ?thesis by blast
qed



text \<open>
  C9, as amended. \<^verbatim>\<open>setActiveWorkspace\<close> performs no existence check: on a backend that
  does not fail, for every non-empty id string, including one that matches no stored
  workspace, the call succeeds and a subsequent \<^verbatim>\<open>getActiveWorkspace()\<close> returns exactly
  that id; in the no-match case the id still matches no workspace afterwards and every
  workspace of \<^verbatim>\<open>listWorkspaces()\<close> has \<^verbatim>\<open>isActive = false\<close>, so the pointer dangles.
\<close>

theorem active_pointer_can_dangle:
  assumes "faults w = []" and "i \<noteq> []"
  shows "\<exists>w'. setActiveWorkspace (Some i) w = (Inr (), w') \<and>
           getActiveWorkspace w' = (Inr (Some i), w') \<and>
           (getWorkspace i w = (Inr None, w) \<longrightarrow>
              getWorkspace i w' = (Inr None, w') \<and>
              (\<exists>ws. listWorkspaces w' = (Inr ws, w') \<and> (\<forall>x \<in> set ws. \<not> ws_isActive x)))"
proof -
  let ?ws = "or_workspaces (local w WORKSPACES)"
  let ?w' = "w\<lparr> sync := (sync w)(ACTIVE_WORKSPACE \<mapsto> Str i),
                 local := (local w)(WORKSPACES \<mapsto>
                   WorkspaceArr (map (activate (Some i) (clock w)) ?ws)) \<rparr>"
  have run: "setActiveWorkspace (Some i) w = (Inr (), ?w')"
    using setActiveWorkspace_ok [OF assms(1), of "Some i"] by simp
  have f': "faults ?w' = []" using assms(1) by simp
  have ptr: "getActiveWorkspace ?w' = (Inr (Some i), ?w')"
    using assms(2) by (simp add: getActiveWorkspace_ok [OF f'] or_null_def)
  have dangle: "getWorkspace i ?w' = (Inr None, ?w') \<and>
      (\<exists>ws. listWorkspaces ?w' = (Inr ws, ?w') \<and> (\<forall>x \<in> set ws. \<not> ws_isActive x))"
    if "getWorkspace i w = (Inr None, w)"
  proof -
    from that have none: "\<forall>x \<in> set ?ws. ws_id x \<noteq> i"
      by (simp add: getWorkspace_ok [OF assms(1)] find_None_iff)
    have "getWorkspace i ?w' = (Inr None, ?w')"
      using none by (simp add: getWorkspace_ok assms(1) find_None_iff activate_def)
    moreover have "listWorkspaces ?w' = (Inr (map (activate (Some i) (clock w)) ?ws), ?w')"
      by (simp add: listWorkspaces_ok [OF f'])
    moreover have "\<forall>x \<in> set (map (activate (Some i) (clock w)) ?ws). \<not> ws_isActive x"
      using none by (simp add: activate_def)
    ultimately show ?thesis by blast
  qed
  from run ptr dangle show ?thesis by blast
qed

theorem active_pointer_can_dangle_witness:
  "faults ex_world = [] \<and> ''ghost'' \<noteq> [] \<and>
   getWorkspace ''ghost'' ex_world = (Inr None, ex_world) \<and>
   (\<exists>w'. setActiveWorkspace (Some ''ghost'') ex_world = (Inr (), w') \<and>
      getActiveWorkspace w' = (Inr (Some ''ghost''), w') \<and>
      getWorkspace ''ghost'' w' = (Inr None, w') \<and>
      (\<exists>ws. listWorkspaces w' = (Inr ws, w') \<and> (\<forall>x \<in> set ws. \<not> ws_isActive x)))"
proof -
  have f: "faults ex_world = []" by (simp add: ex_world_def)
  have n: "''ghost'' \<noteq> []" by simp
  have g: "getWorkspace ''ghost'' ex_world = (Inr None, ex_world)"
    by (simp add: getWorkspace_ok f) (simp add: ex_world_def exA_def exB_def)
  from active_pointer_can_dangle [OF f n] f n g show ?thesis by blast
qed

text \<open>
  C9 as stated fails for the empty string, which is a non-null id: the call succeeds and
  stores it, and \<^verbatim>\<open>getActiveWorkspace()\<close> then returns \<^verbatim>\<open>null\<close>, because
  \<^verbatim>\<open>result[KEY] || null\<close> takes the empty string for absent.
\<close>

theorem empty_id_counterexample:
  "fst (setActiveWorkspace (Some []) ex_world) = Inr () \<and>
   sync (snd (setActiveWorkspace (Some []) ex_world)) ACTIVE_WORKSPACE = Some (Str []) \<and>
   fst (getActiveWorkspace (snd (setActiveWorkspace (Some []) ex_world))) = Inr None"
proof -
  have f: "faults ex_world = []" by (simp add: ex_world_def)
  show ?thesis
    by (simp add: setActiveWorkspace_ok f getActiveWorkspace_ok or_null_def)
qed

text \<open>
  C10. \<^verbatim>\<open>ExtensionStorage.set\<close> with the key \<^verbatim>\<open>'tabSets'\<close> or \<^verbatim>\<open>'savedTexts'\<close>, or with any
  key that is none of \<^verbatim>\<open>'workspaces'\<close>, \<^verbatim>\<open>'activeWorkspaceId'\<close>, \<^verbatim>\<open>'config'\<close> and does not
  start with \<^verbatim>\<open>'quickNotes_'\<close>, resolves and leaves the world as it was: it makes no
  backend call, whatever the value and whatever the state of the backend.
\<close>

theorem legacy_set_unhandled_key_writes_nothing:
  "ExtensionStorage_set ''tabSets'' v w = (Inr (), w) \<and>
   ExtensionStorage_set ''savedTexts'' v w = (Inr (), w) \<and>
   (key \<noteq> ''workspaces'' \<and> key \<noteq> ''activeWorkspaceId'' \<and> key \<noteq> ''config'' \<and>
    \<not> prefix ''quickNotes_'' key \<longrightarrow> ExtensionStorage_set key v w = (Inr (), w))"
  by (simp add: ExtensionStorage_set_def resolve_def)

theorem legacy_set_unhandled_key_writes_nothing_witness:
  "''notes'' \<noteq> ''workspaces'' \<and> ''notes'' \<noteq> ''activeWorkspaceId'' \<and> ''notes'' \<noteq> ''config'' \<and>
   \<not> prefix ''quickNotes_'' ''notes'' \<and>
   ExtensionStorage_set ''tabSets'' (TabSetArr []) ex_store = (Inr (), ex_store) \<and>
   ExtensionStorage_set ''savedTexts'' (TabSetArr []) ex_store = (Inr (), ex_store) \<and>
   ExtensionStorage_set ''notes'' (TabSetArr []) ex_store = (Inr (), ex_store)"
proof -
  have k: "''notes'' \<noteq> ''workspaces'' \<and> ''notes'' \<noteq> ''activeWorkspaceId'' \<and>
           ''notes'' \<noteq> ''config'' \<and> \<not> prefix ''quickNotes_'' ''notes''"
    by simp
  from legacy_set_unhandled_key_writes_nothing [of "TabSetArr []" ex_store "''notes''"] k
  show ?thesis by blast
qed

end
